theory Spec2Isabelle
  imports Main "HOL-Library.AList" "HOL-Library.Log_Nat"
begin

section \<open>JavaScript numbers\<close>

text \<open>
  A JavaScript number is an IEEE 754 double: a finite value, which is a rational, one of
  the two infinities, or NaN. The sum, difference and product of two finite doubles is
  the exact result rounded to the nearest double, ties to the even significand
  (\<open>fl\<close>): a significand \<open>n\<close> of 53 bits at an exponent \<open>e\<close> from -1022, where the
  subnormal numbers lie, to 1023; a result that rounds to \<open>2 ^ 1024\<close> or more is an
  infinity. The two zeros are not told apart; the program never divides and
  never looks at the sign of a zero. \<open>num n\<close> is the double that holds the integer
  \<open>n\<close>, which exists for every \<open>n\<close> of magnitude up to \<open>2 ^ 53\<close>.
\<close>

datatype number = Fin rat | PosInf | NegInf | NaN

definition round_even :: "rat \<Rightarrow> int" where
  "round_even q =
     (let f = \<lfloor>q\<rfloor>; d = q - of_int f
      in if d < 1 / 2 then f else if 1 / 2 < d then f + 1 else if even f then f else f + 1)"

text \<open>The exponent of a positive rational: \<open>2 ^ e \<le> q < 2 ^ (e + 1)\<close>.\<close>

definition ilog2 :: "rat \<Rightarrow> int" where
  "ilog2 q = (if 1 \<le> q then bitlen \<lfloor>q\<rfloor> - 1 else - bitlen (\<lceil>1 / q\<rceil> - 1))"

definition scale2 :: "rat \<Rightarrow> int \<Rightarrow> rat" where
  "scale2 q k = (if 0 \<le> k then q * 2 ^ nat k else q / 2 ^ nat (- k))"

definition fl :: "rat \<Rightarrow> number" where
  "fl q =
     (if q = 0 then Fin 0
      else
        let e = max (ilog2 \<bar>q\<bar>) (- 1022);
            n = round_even (scale2 \<bar>q\<bar> (52 - e));
            y = scale2 (of_int n) (e - 52)
        in if 1023 < e \<or> (e = 1023 \<and> n = 9007199254740992)
             then (if 0 < q then PosInf else NegInf)
           else Fin (if 0 < q then y else - y))"

definition num :: "int \<Rightarrow> number" where
  "num n = Fin (of_int n)"

fun js_neg :: "number \<Rightarrow> number" where
  "js_neg (Fin a) = Fin (- a)"
| "js_neg PosInf = NegInf"
| "js_neg NegInf = PosInf"
| "js_neg NaN = NaN"

fun js_add :: "number \<Rightarrow> number \<Rightarrow> number" where
  "js_add (Fin a) (Fin b) = fl (a + b)"
| "js_add NaN y = NaN"
| "js_add x NaN = NaN"
| "js_add PosInf NegInf = NaN"
| "js_add NegInf PosInf = NaN"
| "js_add PosInf y = PosInf"
| "js_add x PosInf = PosInf"
| "js_add NegInf y = NegInf"
| "js_add x NegInf = NegInf"

definition js_sub :: "number \<Rightarrow> number \<Rightarrow> number" where
  "js_sub x y = js_add x (js_neg y)"

fun js_mul :: "number \<Rightarrow> number \<Rightarrow> number" where
  "js_mul (Fin a) (Fin b) = fl (a * b)"
| "js_mul NaN y = NaN"
| "js_mul x NaN = NaN"
| "js_mul (Fin a) PosInf = (if a = 0 then NaN else if 0 < a then PosInf else NegInf)"
| "js_mul (Fin a) NegInf = (if a = 0 then NaN else if 0 < a then NegInf else PosInf)"
| "js_mul PosInf (Fin b) = (if b = 0 then NaN else if 0 < b then PosInf else NegInf)"
| "js_mul NegInf (Fin b) = (if b = 0 then NaN else if 0 < b then NegInf else PosInf)"
| "js_mul PosInf PosInf = PosInf"
| "js_mul NegInf NegInf = PosInf"
| "js_mul PosInf NegInf = NegInf"
| "js_mul NegInf PosInf = NegInf"

text \<open>\<open>x < y\<close> and \<open>x <= y\<close>; both are false when an operand is NaN.\<close>

fun js_lt :: "number \<Rightarrow> number \<Rightarrow> bool" where
  "js_lt (Fin a) (Fin b) = (a < b)"
| "js_lt (Fin a) PosInf = True"
| "js_lt NegInf (Fin b) = True"
| "js_lt NegInf PosInf = True"
| "js_lt x y = False"

definition js_le :: "number \<Rightarrow> number \<Rightarrow> bool" where
  "js_le x y \<longleftrightarrow> js_lt x y \<or> (x = y \<and> x \<noteq> NaN)"

text \<open>\<open>Number.isInteger\<close>.\<close>

fun isInteger :: "number \<Rightarrow> bool" where
  "isInteger (Fin q) = (of_int \<lfloor>q\<rfloor> = q)"
| "isInteger x = False"

section \<open>Data model (shared/schema.ts)\<close>

text \<open>
  Seat counts and prices are numbers. Identifiers and timestamps are strings. The status enums are
  datatypes; the booking enum's string \<open>CANCELLED\<close> is the constructor
  \<open>BOOKING_CANCELLED\<close>, since the ride status has a \<open>CANCELLED\<close> of its own
  (the edit forms of the client send it, and the PATCH route stores the body as it is).
\<close>

datatype vehicle = Car | Bike | Auto | Bus

datatype ride_status = OPEN | FULL | CANCELLED

datatype booking_status = BOOKED | BOOKING_CANCELLED

record ride =
  id_r :: string
  creatorId :: string
  from_r :: string
  to_r :: string
  date :: string
  time :: string
  vehicleType :: vehicle
  availableSeats :: number
  totalSeats :: number
  pricePerHead :: number
  whatsappLink :: string
  additionalMsg :: "string option"
  status_r :: ride_status
  createdAt :: string

text \<open>\<open>InsertRide\<close>, the type of \<open>insertRideSchema\<close>.\<close>

record insert_ride =
  from_i :: string
  to_i :: string
  date_i :: string
  time_i :: string
  vehicleType_i :: vehicle
  availableSeats_i :: number
  pricePerHead_i :: number
  whatsappLink_i :: string
  additionalMsg_i :: "string option"

text \<open>\<open>Partial<Ride>\<close>: every field of a ride, each one optional.\<close>

record ride_patch =
  id_u :: "string option"
  creatorId_u :: "string option"
  from_u :: "string option"
  to_u :: "string option"
  date_u :: "string option"
  time_u :: "string option"
  vehicleType_u :: "vehicle option"
  availableSeats_u :: "number option"
  totalSeats_u :: "number option"
  pricePerHead_u :: "number option"
  whatsappLink_u :: "string option"
  additionalMsg_u :: "string option"
  status_u :: "ride_status option"
  createdAt_u :: "string option"

definition no_updates :: ride_patch where
  "no_updates = \<lparr> id_u = None, creatorId_u = None, from_u = None, to_u = None,
     date_u = None, time_u = None, vehicleType_u = None, availableSeats_u = None,
     totalSeats_u = None, pricePerHead_u = None, whatsappLink_u = None,
     additionalMsg_u = None, status_u = None, createdAt_u = None \<rparr>"

record booking =
  id_b :: string
  rideId :: string
  userId :: string
  seatsBooked :: number
  status_b :: booking_status
  totalPrice :: number
  bookedAt :: string
  cancelledAt :: "string option"

text \<open>\<open>InsertBooking\<close>, the type of \<open>insertBookingSchema\<close>.\<close>

record insert_booking =
  rideId_i :: string
  seatsBooked_i :: number

section \<open>MemStorage (server/storage.ts)\<close>

text \<open>
  The two JavaScript \<open>Map\<close>s are association lists in insertion order:
  \<open>Map.set\<close> replaces the value of a key that is present and appends a new key, which is
  \<open>AList.update\<close>; \<open>Map.delete\<close> is \<open>AList.delete\<close>; \<open>Map.get\<close> is
  \<open>map_of\<close>. The users map and the session table are left out: the operations below
  read them only to authenticate the caller and to decorate responses. What
  \<open>randomUUID()\<close> and \<open>new Date().toISOString()\<close> return is passed in.
\<close>

record state =
  rides :: "(string \<times> ride) list"
  bookings :: "(string \<times> booking) list"

definition empty_storage :: state where
  "empty_storage = \<lparr> rides = [], bookings = [] \<rparr>"

definition getRide :: "state \<Rightarrow> string \<Rightarrow> ride option" where
  "getRide s i = map_of (rides s) i"

definition createRide :: "state \<Rightarrow> insert_ride \<Rightarrow> string \<Rightarrow> string \<Rightarrow> string \<Rightarrow> ride \<times> state" where
  "createRide s insertRide creator i now =
     (let r = \<lparr> id_r = i, creatorId = creator, from_r = from_i insertRide,
                 to_r = to_i insertRide, date = date_i insertRide, time = time_i insertRide,
                 vehicleType = vehicleType_i insertRide,
                 availableSeats = availableSeats_i insertRide,
                 totalSeats = availableSeats_i insertRide,
                 pricePerHead = pricePerHead_i insertRide,
                 whatsappLink = whatsappLink_i insertRide,
                 additionalMsg = additionalMsg_i insertRide,
                 status_r = OPEN, createdAt = now \<rparr>
      in (r, s\<lparr>rides := AList.update i r (rides s)\<rparr>))"

definition override :: "'a \<Rightarrow> 'a option \<Rightarrow> 'a" where
  "override old new = (case new of None \<Rightarrow> old | Some v \<Rightarrow> v)"

text \<open>The object spread \<open>{ ...ride, ...updates }\<close>.\<close>

definition spread :: "ride \<Rightarrow> ride_patch \<Rightarrow> ride" where
  "spread r u =
     \<lparr> id_r = override (id_r r) (id_u u),
       creatorId = override (creatorId r) (creatorId_u u),
       from_r = override (from_r r) (from_u u),
       to_r = override (to_r r) (to_u u),
       date = override (date r) (date_u u),
       time = override (time r) (time_u u),
       vehicleType = override (vehicleType r) (vehicleType_u u),
       availableSeats = override (availableSeats r) (availableSeats_u u),
       totalSeats = override (totalSeats r) (totalSeats_u u),
       pricePerHead = override (pricePerHead r) (pricePerHead_u u),
       whatsappLink = override (whatsappLink r) (whatsappLink_u u),
       additionalMsg = (case additionalMsg_u u of None \<Rightarrow> additionalMsg r | Some m \<Rightarrow> Some m),
       status_r = override (status_r r) (status_u u),
       createdAt = override (createdAt r) (createdAt_u u) \<rparr>"

definition updateRide :: "state \<Rightarrow> string \<Rightarrow> ride_patch \<Rightarrow> bool \<Rightarrow> ride option \<times> state" where
  "updateRide s i updates autoUpdateStatus =
     (case map_of (rides s) i of
        None \<Rightarrow> (None, s)
      | Some r \<Rightarrow>
          (let updatedRide = spread r updates;
               updatedRide' =
                 (if autoUpdateStatus \<and> availableSeats_u updates \<noteq> None then
                    (if js_le (availableSeats updatedRide) (num 0)
                       then updatedRide\<lparr>status_r := FULL\<rparr>
                     else if status_r r = FULL \<and> js_lt (num 0) (availableSeats updatedRide)
                       then updatedRide\<lparr>status_r := OPEN\<rparr>
                     else updatedRide)
                  else updatedRide)
           in (Some updatedRide', s\<lparr>rides := AList.update i updatedRide' (rides s)\<rparr>)))"

definition deleteRide :: "state \<Rightarrow> string \<Rightarrow> bool \<times> state" where
  "deleteRide s i = (map_of (rides s) i \<noteq> None, s\<lparr>rides := AList.delete i (rides s)\<rparr>)"

definition getBooking :: "state \<Rightarrow> string \<Rightarrow> booking option" where
  "getBooking s i = map_of (bookings s) i"

definition getBookingsByRide :: "state \<Rightarrow> string \<Rightarrow> booking list" where
  "getBookingsByRide s rid = filter (\<lambda>b. rideId b = rid) (map snd (bookings s))"

definition createBooking :: "state \<Rightarrow> insert_booking \<Rightarrow> string \<Rightarrow> number \<Rightarrow> string \<Rightarrow> string \<Rightarrow> booking \<times> state" where
  "createBooking s insertBooking user price i now =
     (let b = \<lparr> id_b = i, rideId = rideId_i insertBooking, userId = user,
                 seatsBooked = seatsBooked_i insertBooking, status_b = BOOKED,
                 totalPrice = js_mul (seatsBooked_i insertBooking) price,
                 bookedAt = now, cancelledAt = None \<rparr>
      in (b, s\<lparr>bookings := AList.update i b (bookings s)\<rparr>))"

definition cancelBooking :: "state \<Rightarrow> string \<Rightarrow> string \<Rightarrow> booking option \<times> state" where
  "cancelBooking s i now =
     (case map_of (bookings s) i of
        None \<Rightarrow> (None, s)
      | Some b \<Rightarrow>
          (let cancelledBooking = b\<lparr>status_b := BOOKING_CANCELLED, cancelledAt := Some now\<rparr>
           in (Some cancelledBooking,
               s\<lparr>bookings := AList.update i cancelledBooking (bookings s)\<rparr>)))"

section \<open>Route handlers (server/routes.ts)\<close>

text \<open>
  One constructor for each error response of the handlers modelled here, with its HTTP
  status and message. \<open>error_kind\<close> reads a response in the error taxonomy of the
  specification.
\<close>

datatype error =
    ValidationFailed       \<comment> \<open>400, the zod issues\<close>
  | RideNotFound           \<comment> \<open>404 "Ride not found"\<close>
  | BookingNotFound        \<comment> \<open>404 "Booking not found"\<close>
  | NotAuthorizedUpdate    \<comment> \<open>403 "Not authorized to update this ride"\<close>
  | NotAuthorizedDelete    \<comment> \<open>403 "Not authorized to delete this ride"\<close>
  | NotAuthorizedCancel    \<comment> \<open>403 "Not authorized to cancel this booking"\<close>
  | OwnRide                \<comment> \<open>400 "Cannot book your own ride"\<close>
  | NotEnoughSeats         \<comment> \<open>400 "Not enough seats available"\<close>
  | FullyBooked            \<comment> \<open>400 "This ride is fully booked"\<close>
  | AlreadyCancelled       \<comment> \<open>400 "Booking already cancelled"\<close>

datatype error_class = NotFound | Forbidden | InvalidOperation | InsufficientCapacity | InvalidInput

fun error_kind :: "error \<Rightarrow> error_class" where
  "error_kind ValidationFailed = InvalidInput"
| "error_kind RideNotFound = NotFound"
| "error_kind BookingNotFound = NotFound"
| "error_kind NotAuthorizedUpdate = Forbidden"
| "error_kind NotAuthorizedDelete = Forbidden"
| "error_kind NotAuthorizedCancel = Forbidden"
| "error_kind OwnRide = InvalidOperation"
| "error_kind NotEnoughSeats = InsufficientCapacity"
| "error_kind FullyBooked = InvalidOperation"
| "error_kind AlreadyCancelled = InvalidOperation"

text \<open>
  The zod checks on numbers: \<open>z.number()\<close> accepts every number but NaN,
  \<open>.int()\<close> asks for \<open>Number.isInteger\<close>, and \<open>.min(k)\<close> rejects \<open>x < k\<close>.
\<close>

definition z_number_min :: "number \<Rightarrow> number \<Rightarrow> bool" where
  "z_number_min k x \<longleftrightarrow> x \<noteq> NaN \<and> \<not> js_lt x k"

definition z_number_int_min :: "number \<Rightarrow> number \<Rightarrow> bool" where
  "z_number_int_min k x \<longleftrightarrow> x \<noteq> NaN \<and> isInteger x \<and> \<not> js_lt x k"

text \<open>\<open>insertRideSchema.parse\<close>; the enum check of \<open>vehicleType\<close> is its type.\<close>

definition insertRideSchema :: "insert_ride \<Rightarrow> bool" where
  "insertRideSchema x \<longleftrightarrow>
     length (from_i x) \<ge> 2 \<and> length (to_i x) \<ge> 2 \<and> length (date_i x) \<ge> 1 \<and>
     length (time_i x) \<ge> 1 \<and> z_number_int_min (num 1) (availableSeats_i x) \<and>
     z_number_min (num 0) (pricePerHead_i x) \<and> length (whatsappLink_i x) \<ge> 1"

definition insertBookingSchema :: "insert_booking \<Rightarrow> bool" where
  "insertBookingSchema x \<longleftrightarrow> z_number_int_min (num 1) (seatsBooked_i x)"

text \<open>
  POST /api/rides. The handler replaces a missing or empty \<open>additionalMsg\<close> by the
  empty string before it validates.
\<close>

definition post_ride :: "state \<Rightarrow> string \<Rightarrow> insert_ride \<Rightarrow> string \<Rightarrow> string \<Rightarrow> error + ride \<times> state" where
  "post_ride s user body i now =
     (let rideInput = body\<lparr>additionalMsg_i :=
            Some (case additionalMsg_i body of None \<Rightarrow> [] | Some m \<Rightarrow> m)\<rparr>
      in if \<not> insertRideSchema rideInput then Inl ValidationFailed
         else Inr (createRide s rideInput user i now))"

text \<open>PATCH /api/rides/:id. The body goes to \<open>updateRide\<close> unvalidated.\<close>

definition patch_ride :: "state \<Rightarrow> string \<Rightarrow> string \<Rightarrow> ride_patch \<Rightarrow> error + ride option \<times> state" where
  "patch_ride s user i body =
     (case getRide s i of
        None \<Rightarrow> Inl RideNotFound
      | Some r \<Rightarrow>
          if creatorId r \<noteq> user then Inl NotAuthorizedUpdate
          else Inr (updateRide s i body False))"

text \<open>DELETE /api/rides/:id.\<close>

definition delete_ride :: "state \<Rightarrow> string \<Rightarrow> string \<Rightarrow> error + bool \<times> state" where
  "delete_ride s user i =
     (case getRide s i of
        None \<Rightarrow> Inl RideNotFound
      | Some r \<Rightarrow>
          if creatorId r \<noteq> user then Inl NotAuthorizedDelete
          else Inr (True, snd (deleteRide s i)))"

text \<open>
  POST /api/bookings. The response also carries the ride as re-read after the update and
  its creator; the model returns the booking and the new storage.
\<close>

definition post_booking :: "state \<Rightarrow> string \<Rightarrow> string \<Rightarrow> number \<Rightarrow> string \<Rightarrow> string \<Rightarrow> error + booking \<times> state" where
  "post_booking s user rid seats i now =
     (let validatedData = \<lparr> rideId_i = rid, seatsBooked_i = seats \<rparr>
      in if \<not> insertBookingSchema validatedData then Inl ValidationFailed
         else case getRide s rid of
           None \<Rightarrow> Inl RideNotFound
         | Some r \<Rightarrow>
             if creatorId r = user then Inl OwnRide
             else if js_lt (availableSeats r) seats then Inl NotEnoughSeats
             else if status_r r = FULL then Inl FullyBooked
             else
               (let (b, s1) = createBooking s validatedData user (pricePerHead r) i now;
                    (_, s2) = updateRide s1 rid
                                (no_updates\<lparr>availableSeats_u :=
                                   Some (js_sub (availableSeats r) seats)\<rparr>) True
                in Inr (b, s2)))"

text \<open>DELETE /api/bookings/:id.\<close>

definition delete_booking :: "state \<Rightarrow> string \<Rightarrow> string \<Rightarrow> string \<Rightarrow> error + booking option \<times> state" where
  "delete_booking s user i now =
     (case getBooking s i of
        None \<Rightarrow> Inl BookingNotFound
      | Some b \<Rightarrow>
          if userId b \<noteq> user then Inl NotAuthorizedCancel
          else if status_b b = BOOKING_CANCELLED then Inl AlreadyCancelled
          else
            (let (cancelledBooking, s1) = cancelBooking s i now;
                 s2 = (case getRide s1 (rideId b) of
                         None \<Rightarrow> s1
                       | Some r \<Rightarrow>
                           snd (updateRide s1 (rideId b)
                                  (no_updates\<lparr>availableSeats_u :=
                                     Some (js_add (availableSeats r) (seatsBooked b))\<rparr>) True))
             in Inr (cancelledBooking, s2)))"

section \<open>Sequences of requests\<close>

datatype request =
    CreateRide string insert_ride string string
  | UpdateRide string string ride_patch
  | DeleteRide string string
  | CreateBooking string string number string string
  | CancelBooking string string string

definition after :: "state \<Rightarrow> error + 'a \<times> state \<Rightarrow> state" where
  "after s res = (case res of Inl e \<Rightarrow> s | Inr (x, s') \<Rightarrow> s')"

text \<open>The storage a request leaves behind; an error response leaves it as it was.\<close>

fun step :: "state \<Rightarrow> request \<Rightarrow> state" where
  "step s (CreateRide user body i now) = after s (post_ride s user body i now)"
| "step s (UpdateRide user i body) = after s (patch_ride s user i body)"
| "step s (DeleteRide user i) = after s (delete_ride s user i)"
| "step s (CreateBooking user rid seats i now) = after s (post_booking s user rid seats i now)"
| "step s (CancelBooking user i now) = after s (delete_booking s user i now)"

text \<open>
  \<open>randomUUID()\<close> returns an identifier that was never used: a new ride's identifier is
  no key of the rides map and no booking refers to it (a booking can outlive its ride),
  a new booking's identifier is no key of the bookings map.
\<close>

fun fresh :: "state \<Rightarrow> request \<Rightarrow> bool" where
  "fresh s (CreateRide user body i now) =
     (i \<notin> set (map fst (rides s)) \<and> i \<notin> set (map (rideId \<circ> snd) (bookings s)))"
| "fresh s (CreateBooking user rid seats i now) = (i \<notin> set (map fst (bookings s)))"
| "fresh s _ = True"

fun exec :: "state \<Rightarrow> request list \<Rightarrow> state" where
  "exec s [] = s"
| "exec s (q # qs) = exec (step s q) qs"

fun fresh_ids :: "state \<Rightarrow> request list \<Rightarrow> bool" where
  "fresh_ids s [] = True"
| "fresh_ids s (q # qs) = (fresh s q \<and> fresh_ids (step s q) qs)"

text \<open>
  An UpdateRide that changes no seat counter: the request is refused, or the patched
  ride has the \<open>availableSeats\<close> and the \<open>totalSeats\<close> it had (the patch leaves them out
  or sends their current values again, as the edit dialog does).
\<close>

fun keeps_seats :: "state \<Rightarrow> request \<Rightarrow> bool" where
  "keeps_seats s (UpdateRide user i body) =
     (case getRide s i of
        None \<Rightarrow> True
      | Some r \<Rightarrow> creatorId r \<noteq> user \<or>
          (availableSeats (spread r body) = availableSeats r \<and>
           totalSeats (spread r body) = totalSeats r))"
| "keeps_seats s q = True"

fun seats_kept :: "state \<Rightarrow> request list \<Rightarrow> bool" where
  "seats_kept s [] = True"
| "seats_kept s (q # qs) = (keeps_seats s q \<and> seats_kept (step s q) qs)"

text \<open>A ride is offered with at most \<open>2 ^ 53\<close> seats, so that every seat count up to its
  total is a double.\<close>

fun safe_seats :: "request \<Rightarrow> bool" where
  "safe_seats (CreateRide user body i now) = js_le (availableSeats_i body) (num (2 ^ 53))"
| "safe_seats q = True"

text \<open>
  The seats of the bookings of a ride that are BOOKED, added up exactly; there is no
  such sum when one of them is not finite.
\<close>

fun sum_exact :: "number list \<Rightarrow> rat option" where
  "sum_exact [] = Some 0"
| "sum_exact (Fin q # xs) = map_option (\<lambda>t. q + t) (sum_exact xs)"
| "sum_exact (x # xs) = None"

definition bookedSeats :: "state \<Rightarrow> string \<Rightarrow> rat option" where
  "bookedSeats s rid =
     sum_exact (map seatsBooked (filter (\<lambda>b. status_b b = BOOKED) (getBookingsByRide s rid)))"

text \<open>\<open>totalSeats - availableSeats\<close> is the sum of the booked seats, and
  \<open>availableSeats\<close> is not negative.\<close>

fun balanced :: "number \<Rightarrow> number \<Rightarrow> rat option \<Rightarrow> bool" where
  "balanced (Fin t) (Fin a) (Some b) = (t - a = b \<and> 0 \<le> a)"
| "balanced t a b = False"

definition consistent :: "state \<Rightarrow> bool" where
  "consistent s =
     list_all (\<lambda>(k, r). balanced (totalSeats r) (availableSeats r) (bookedSeats s k)) (rides s)"


text \<open>
  For the proofs: the integer held by a number that holds one, and the numbers that do.
\<close>

definition int_val :: "number \<Rightarrow> int" where
  "int_val x = (case x of Fin q \<Rightarrow> \<lfloor>q\<rfloor> | _ \<Rightarrow> 0)"

definition whole :: "number \<Rightarrow> bool" where
  "whole x \<longleftrightarrow> x = num (int_val x)"

text \<open>What a booking contributes to the BOOKED seats of ride \<open>k\<close>.\<close>

definition seats_for :: "string \<Rightarrow> booking \<Rightarrow> int" where
  "seats_for k b = (if rideId b = k \<and> status_b b = BOOKED then int_val (seatsBooked b) else 0)"

definition booked :: "state \<Rightarrow> string \<Rightarrow> int" where
  "booked s k = (\<Sum>p\<leftarrow>bookings s. seats_for k (snd p))"

text \<open>
  The invariant behind the seat accounting: ride keys are unique; the counters of every
  stored ride are integers, the total at most \<open>2 ^ 53\<close>, the available seats not
  negative, and their difference is the number of seats of the BOOKED bookings of the
  ride; every booking holds a whole number of seats, at least one.
\<close>

definition accounting :: "state \<Rightarrow> bool" where
  "accounting s \<longleftrightarrow>
     distinct (map fst (rides s)) \<and>
     (\<forall>k r. map_of (rides s) k = Some r \<longrightarrow>
        whole (totalSeats r) \<and> whole (availableSeats r) \<and>
        int_val (totalSeats r) \<le> 2 ^ 53 \<and> 0 \<le> int_val (availableSeats r) \<and>
        int_val (totalSeats r) - int_val (availableSeats r) = booked s k) \<and>
     (\<forall>p \<in> set (bookings s). whole (seatsBooked (snd p)) \<and> 1 \<le> int_val (seatsBooked (snd p)))"

subsection \<open>Concrete requests\<close>

definition ride_input :: "number \<Rightarrow> number \<Rightarrow> insert_ride" where
  "ride_input seats price =
     \<lparr> from_i = ''VIT'', to_i = ''Bhopal'', date_i = ''2025-01-01'', time_i = ''10:00'',
       vehicleType_i = Car, availableSeats_i = seats, pricePerHead_i = price,
       whatsappLink_i = ''https://wa.me/919999999999'', additionalMsg_i = None \<rparr>"

definition two_bookings :: "request list" where
  "two_bookings =
     [CreateRide ''u1'' (ride_input (num 2) (num 100)) ''r1'' ''t0'',
      CreateBooking ''u2'' ''r1'' (num 1) ''b1'' ''t1'',
      CreateBooking ''u3'' ''r1'' (num 1) ''b2'' ''t2'']"

definition one_ride :: "request list" where
  "one_ride = [CreateRide ''u1'' (ride_input (num 3) (num 100)) ''r1'' ''t0'']"

text \<open>The second request is what the edit dialog sends: every field of the form, the
  seat counter with the value it has.\<close>

definition busy_trace :: "request list" where
  "busy_trace = two_bookings @
     [UpdateRide ''u1'' ''r1''
        (no_updates\<lparr>availableSeats_u := Some (num 0), pricePerHead_u := Some (Fin (241 / 2)),
                     status_u := Some OPEN\<rparr>),
      CancelBooking ''u2'' ''b1'' ''t3'',
      CreateRide ''u2'' (ride_input (num 4) (num 50)) ''r2'' ''t4'',
      CreateBooking ''u1'' ''r2'' (num 3) ''b3'' ''t5'',
      DeleteRide ''u1'' ''r1'',
      CancelBooking ''u3'' ''b2'' ''t6'']"


definition edited_seats_trace :: "request list" where
  "edited_seats_trace =
     [CreateRide ''u1'' (ride_input (num 2) (num 100)) ''r1'' ''t0'',
      CreateBooking ''u2'' ''r1'' (num 1) ''b1'' ''t1'',
      UpdateRide ''u1'' ''r1'' (no_updates\<lparr>availableSeats_u := Some (num 2)\<rparr>)]"


text \<open>Rides with more than \<open>2 ^ 53\<close> seats: \<open>2 ^ 53 + 2\<close> and \<open>2 ^ 53 + 4\<close>.\<close>

definition huge_ride_trace :: "request list" where
  "huge_ride_trace =
     [CreateRide ''u1'' (ride_input (num 9007199254740994) (num 100)) ''r1'' ''t0'',
      CreateBooking ''u2'' ''r1'' (num 1) ''b1'' ''t1'']"


definition costly_ride :: "request list" where
  "costly_ride = [CreateRide ''u1'' (ride_input (num 3) (num 9007199254740991)) ''r1'' ''t0'']"

definition sold_out :: "request list" where
  "sold_out =
     [CreateRide ''u1'' (ride_input (num 1) (num 100)) ''r1'' ''t0'',
      CreateBooking ''u2'' ''r1'' (num 1) ''b1'' ''t1'']"

definition manual_full :: "request list" where
  "manual_full =
     [CreateRide ''u1'' (ride_input (num 3) (num 100)) ''r1'' ''t0'',
      CreateBooking ''u2'' ''r1'' (num 1) ''b1'' ''t1'',
      UpdateRide ''u1'' ''r1'' (no_updates\<lparr>status_u := Some FULL\<rparr>)]"

definition manual_cancelled :: "request list" where
  "manual_cancelled =
     [CreateRide ''u1'' (ride_input (num 1) (num 100)) ''r1'' ''t0'',
      UpdateRide ''u1'' ''r1'' (no_updates\<lparr>status_u := Some CANCELLED\<rparr>)]"

definition orphaned :: "request list" where
  "orphaned =
     [CreateRide ''u1'' (ride_input (num 2) (num 100)) ''r1'' ''t0'',
      CreateBooking ''u2'' ''r1'' (num 2) ''b1'' ''t1'',
      DeleteRide ''u1'' ''r1'']"

text \<open>The seat counter and the status of a ride, as a pair.\<close>

definition seats_and_status :: "state \<Rightarrow> string \<Rightarrow> (number \<times> ride_status) option" where
  "seats_and_status s i = map_option (\<lambda>r. (availableSeats r, status_r r)) (getRide s i)"

section \<open>Numbers that hold integers\<close>

lemma round_even_of_int [simp]: "round_even (of_int m) = m"
  by (simp add: round_even_def)

lemma fl_exact:
  assumes "q \<noteq> 0"
    and "max (ilog2 \<bar>q\<bar>) (- 1022) \<le> 1022"
    and "scale2 (of_int (round_even (scale2 \<bar>q\<bar> (52 - max (ilog2 \<bar>q\<bar>) (- 1022)))))
           (max (ilog2 \<bar>q\<bar>) (- 1022) - 52) = \<bar>q\<bar>"
  shows "fl q = Fin q"
proof -
  have "\<not> (1023 < max (ilog2 \<bar>q\<bar>) (- 1022) \<or>
            (max (ilog2 \<bar>q\<bar>) (- 1022) = 1023 \<and>
             round_even (scale2 \<bar>q\<bar> (52 - max (ilog2 \<bar>q\<bar>) (- 1022))) = 9007199254740992))"
    using assms(2) by linarith
  then have "fl q = Fin (if 0 < q then \<bar>q\<bar> else - \<bar>q\<bar>)"
    unfolding fl_def Let_def assms(3) using assms(1) by (simp only: if_False)
  then show ?thesis by (simp split: if_splits)
qed

lemma fl_of_int:
  assumes "\<bar>n\<bar> \<le> 2 ^ 53"
  shows "fl (of_int n) = Fin (of_int n)"
proof (cases "n = 0")
  case True
  then show ?thesis by (simp add: fl_def)
next
  case False
  define m where "m = \<bar>n\<bar>"
  have m: "1 \<le> m" "m \<le> 2 ^ 53" using False assms by (simp_all add: m_def)
  define e where "e = bitlen m - 1"
  have abs: "\<bar>of_int n :: rat\<bar> = of_int m" by (simp add: m_def)
  have mpos: "0 < m" using m by simp
  from bitlen_bounds[OF mpos] have bnd: "2 ^ nat e \<le> m" "m < 2 ^ nat (bitlen m)"
    by (simp_all add: e_def)
  have e0: "0 \<le> e"
    using mpos bitlen_eq_zero_iff[of m] bitlen_nonneg[of m] by (simp add: e_def)
  have "(2::int) ^ nat e \<le> 2 ^ 53" using bnd(1) m(2) by linarith
  then have "nat e \<le> 53" using power_le_imp_le_exp[of "2::int" "nat e" 53] by simp
  then have e: "0 \<le> e" "e \<le> 53" using e0 by simp_all
  have il: "ilog2 (of_int m) = e"
    using m by (simp add: ilog2_def e_def)
  have mx: "max (ilog2 \<bar>of_int n\<bar>) (- 1022) = e"
    using e by (simp add: abs il)
  have ex: "\<exists>m'. scale2 (of_int m) (52 - e) = of_int m' \<and> scale2 (of_int m') (e - 52) = of_int m"
  proof (cases "e \<le> 52")
    case True
    have "scale2 (of_int m) (52 - e) = of_int (m * 2 ^ nat (52 - e))"
      using True by (simp add: scale2_def)
    moreover have "scale2 (of_int (m * 2 ^ nat (52 - e))) (e - 52) = of_int m"
      using True by (cases "e = 52") (simp_all add: scale2_def)
    ultimately show ?thesis by blast
  next
    case False
    with e have e53: "e = 53" by simp
    with bnd(1) have "2 ^ 53 \<le> m" by simp
    then have "m = 2 ^ 53" using m by simp
    then have "scale2 (of_int m) (52 - e) = of_int (2 ^ 52)"
      "scale2 (of_int (2 ^ 52)) (e - 52) = of_int m"
      using e53 by (simp_all add: scale2_def)
    then show ?thesis by blast
  qed
  then obtain m' where m': "scale2 (of_int m) (52 - e) = of_int m'"
    "scale2 (of_int m') (e - 52) = of_int m" by blast
  have y: "scale2 (of_int (round_even (scale2 \<bar>of_int n\<bar> (52 - max (ilog2 \<bar>of_int n\<bar>) (- 1022)))))
           (max (ilog2 \<bar>of_int n\<bar>) (- 1022) - 52) = \<bar>of_int n\<bar>"
    unfolding mx unfolding abs by (simp add: m')
  have small: "max (ilog2 \<bar>of_int n :: rat\<bar>) (- 1022) \<le> 1022"
    unfolding mx using e by simp
  have "of_int n \<noteq> (0::rat)" using False by simp
  from fl_exact[OF this small y] show ?thesis .
qed

lemma num_eq_iff [simp]: "num a = num b \<longleftrightarrow> a = b"
  by (simp add: num_def)

lemma num_distinct [simp]: "num a \<noteq> NaN" "num a \<noteq> PosInf" "num a \<noteq> NegInf"
  by (simp_all add: num_def)

lemma int_val_num [simp]: "int_val (num n) = n"
  by (simp add: int_val_def num_def)

lemma whole_num [simp]: "whole (num n)"
  by (simp add: whole_def)

lemma isInteger_num [simp]: "isInteger (num n)"
  by (simp add: num_def)

lemma isInteger_whole: "isInteger x \<Longrightarrow> whole x"
  by (cases x) (auto simp: whole_def int_val_def num_def)

lemma js_lt_num [simp]: "js_lt (num a) (num b) \<longleftrightarrow> a < b"
  by (simp add: num_def)

lemma js_le_num [simp]: "js_le (num a) (num b) \<longleftrightarrow> a \<le> b"
  by (auto simp: js_le_def)

lemma js_add_num: "\<bar>a + b\<bar> \<le> 2 ^ 53 \<Longrightarrow> js_add (num a) (num b) = num (a + b)"
  using fl_of_int[of "a + b"] by (simp add: num_def)

lemma js_sub_num: "\<bar>a - b\<bar> \<le> 2 ^ 53 \<Longrightarrow> js_sub (num a) (num b) = num (a - b)"
  using fl_of_int[of "a - b"] by (simp add: num_def js_sub_def)

lemma js_mul_num: "\<bar>a * b\<bar> \<le> 2 ^ 53 \<Longrightarrow> js_mul (num a) (num b) = num (a * b)"
  using fl_of_int[of "a * b"] by (simp add: num_def)

section \<open>Seat accounting\<close>

lemma sum_list_update:
  fixes f :: "'v \<Rightarrow> int"
  shows "(\<Sum>p\<leftarrow>AList.update i v al. f (snd p)) =
         (\<Sum>p\<leftarrow>al. f (snd p)) + f v - (case map_of al i of None \<Rightarrow> 0 | Some b \<Rightarrow> f b)"
  by (induction al) auto

lemma bookedSeats_booked:
  assumes "\<And>p. p \<in> set (bookings s) \<Longrightarrow> whole (seatsBooked (snd p))"
  shows "bookedSeats s k = Some (of_int (booked s k))"
proof -
  have "\<And>al. (\<And>p. p \<in> set al \<Longrightarrow> whole (seatsBooked (snd p))) \<Longrightarrow>
      sum_exact (map seatsBooked (filter (\<lambda>b. status_b b = BOOKED)
         (filter (\<lambda>b. rideId b = k) (map snd al)))) =
      Some (of_int (\<Sum>p\<leftarrow>al. seats_for k (snd p)))"
    subgoal for al
    proof (induction al)
      case Nil
      then show ?case by simp
    next
      case (Cons p al)
      have w: "seatsBooked (snd p) = Fin (of_int (int_val (seatsBooked (snd p))))"
        using Cons.prems[of p] by (simp add: whole_def num_def)
      have ih: "sum_exact (map seatsBooked (filter (\<lambda>b. status_b b = BOOKED)
         (filter (\<lambda>b. rideId b = k) (map snd al)))) =
         Some (of_int (\<Sum>p\<leftarrow>al. seats_for k (snd p)))"
        using Cons by simp
      show ?case
      proof (cases "rideId (snd p) = k \<and> status_b (snd p) = BOOKED")
        case True
        then have "sum_exact (map seatsBooked (filter (\<lambda>b. status_b b = BOOKED)
           (filter (\<lambda>b. rideId b = k) (map snd (p # al))))) =
           sum_exact (Fin (of_int (int_val (seatsBooked (snd p)))) #
             map seatsBooked (filter (\<lambda>b. status_b b = BOOKED)
               (filter (\<lambda>b. rideId b = k) (map snd al))))"
          using w by simp
        then show ?thesis using True ih by (simp add: seats_for_def)
      next
        case False
        then show ?thesis using ih by (auto simp: seats_for_def)
      qed
    qed
    done
  from this[of "bookings s"] assms show ?thesis
    by (simp add: bookedSeats_def getBookingsByRide_def booked_def)
qed

lemma booked_unreferenced:
  "k \<notin> set (map (rideId \<circ> snd) (bookings s)) \<Longrightarrow> booked s k = 0"
proof -
  have "\<And>al. k \<notin> set (map (rideId \<circ> snd) al) \<Longrightarrow> (\<Sum>p\<leftarrow>al. seats_for k (snd p)) = 0"
    subgoal for al by (induction al) (auto simp: seats_for_def)
    done
  then show "k \<notin> set (map (rideId \<circ> snd) (bookings s)) \<Longrightarrow> booked s k = 0"
    by (simp add: booked_def)
qed

lemma booked_bookings_update:
  assumes "bookings s' = AList.update i b (bookings s)"
  shows "booked s' k = booked s k + seats_for k b -
           (case map_of (bookings s) i of None \<Rightarrow> 0 | Some b0 \<Rightarrow> seats_for k b0)"
  using assms by (simp add: booked_def sum_list_update)

lemma accounting_empty: "accounting empty_storage"
  by (simp add: accounting_def empty_storage_def)

lemma accountingI:
  assumes "distinct (map fst (rides s))"
    and "\<And>k r. map_of (rides s) k = Some r \<Longrightarrow> whole (totalSeats r) \<and> whole (availableSeats r)"
    and "\<And>k r. map_of (rides s) k = Some r \<Longrightarrow> int_val (totalSeats r) \<le> 2 ^ 53"
    and "\<And>k r. map_of (rides s) k = Some r \<Longrightarrow> 0 \<le> int_val (availableSeats r)"
    and "\<And>k r. map_of (rides s) k = Some r \<Longrightarrow>
           int_val (totalSeats r) - int_val (availableSeats r) = booked s k"
    and "\<And>p. p \<in> set (bookings s) \<Longrightarrow> whole (seatsBooked (snd p)) \<and> 1 \<le> int_val (seatsBooked (snd p))"
  shows "accounting s"
  unfolding accounting_def using assms by blast

lemma accountingD:
  assumes "accounting s"
  shows "distinct (map fst (rides s))"
    and "map_of (rides s) k = Some r \<Longrightarrow> whole (totalSeats r) \<and> whole (availableSeats r)"
    and "map_of (rides s) k = Some r \<Longrightarrow> int_val (totalSeats r) \<le> 2 ^ 53"
    and "map_of (rides s) k = Some r \<Longrightarrow> 0 \<le> int_val (availableSeats r)"
    and "map_of (rides s) k = Some r \<Longrightarrow>
           int_val (totalSeats r) - int_val (availableSeats r) = booked s k"
    and "p \<in> set (bookings s) \<Longrightarrow> whole (seatsBooked (snd p)) \<and> 1 \<le> int_val (seatsBooked (snd p))"
  using assms unfolding accounting_def by blast+

lemma booked_nonneg: "accounting s \<Longrightarrow> 0 \<le> booked s k"
proof -
  assume a: "accounting s"
  have "\<And>p. p \<in> set (bookings s) \<Longrightarrow> 0 \<le> seats_for k (snd p)"
    using accountingD(6)[OF a] by (fastforce simp: seats_for_def)
  then show ?thesis unfolding booked_def by (intro sum_list_nonneg) auto
qed

lemma accounting_rides_update:
  assumes acc: "accounting s"
    and wh: "whole (totalSeats r')" "whole (availableSeats r')"
    and le: "int_val (totalSeats r') \<le> 2 ^ 53"
    and nn: "0 \<le> int_val (availableSeats r')"
    and eq: "int_val (totalSeats r') - int_val (availableSeats r') = booked s i"
  shows "accounting (s\<lparr>rides := AList.update i r' (rides s)\<rparr>)"
proof (rule accountingI)
  show "distinct (map fst (rides (s\<lparr>rides := AList.update i r' (rides s)\<rparr>)))"
    using accountingD(1)[OF acc] by (simp add: distinct_update)
next
  fix k r
  assume "map_of (rides (s\<lparr>rides := AList.update i r' (rides s)\<rparr>)) k = Some r"
  then have c: "(k = i \<and> r = r') \<or> (k \<noteq> i \<and> map_of (rides s) k = Some r)"
    by (simp add: update_conv' split: if_splits)
  have b: "booked (s\<lparr>rides := AList.update i r' (rides s)\<rparr>) k = booked s k"
    by (simp add: booked_def)
  show "whole (totalSeats r) \<and> whole (availableSeats r)"
    using c wh accountingD(2)[OF acc] by metis
  show "int_val (totalSeats r) \<le> 2 ^ 53"
    using c le accountingD(3)[OF acc] by metis
  show "0 \<le> int_val (availableSeats r)"
    using c nn accountingD(4)[OF acc] by metis
  show "int_val (totalSeats r) - int_val (availableSeats r) =
          booked (s\<lparr>rides := AList.update i r' (rides s)\<rparr>) k"
    using c eq accountingD(5)[OF acc] b by metis
next
  fix p
  assume "p \<in> set (bookings (s\<lparr>rides := AList.update i r' (rides s)\<rparr>))"
  then show "whole (seatsBooked (snd p)) \<and> 1 \<le> int_val (seatsBooked (snd p))"
    using accountingD(6)[OF acc] by simp
qed

lemma accounting_post_ride:
  assumes "accounting s" "fresh s (CreateRide user body i now)" "safe_seats (CreateRide user body i now)"
  shows "accounting (step s (CreateRide user body i now))"
proof (cases "post_ride s user body i now")
  case (Inl e)
  then show ?thesis using assms by (simp add: after_def)
next
  case (Inr p)
  then obtain r where p: "p = (r, s\<lparr>rides := AList.update i r (rides s)\<rparr>)"
    and r: "totalSeats r = availableSeats_i body" "availableSeats r = availableSeats_i body"
    and v: "isInteger (availableSeats_i body)" "\<not> js_lt (availableSeats_i body) (num 1)"
    by (auto simp: post_ride_def createRide_def Let_def insertRideSchema_def z_number_int_min_def
        split: if_splits)
  have w: "whole (availableSeats_i body)" using v(1) by (rule isInteger_whole)
  then have n: "availableSeats_i body = num (int_val (availableSeats_i body))"
    by (simp add: whole_def)
  have one: "1 \<le> int_val (availableSeats_i body)"
    using v(2) by (subst (asm) n) simp
  have le: "int_val (availableSeats_i body) \<le> 2 ^ 53"
    using assms(3) by (subst (asm) safe_seats.simps, subst (asm) n) simp
  have z: "booked s i = 0" using assms(2) by (simp add: booked_unreferenced)
  have "accounting (s\<lparr>rides := AList.update i r (rides s)\<rparr>)"
    using assms(1) r w one le z by (intro accounting_rides_update) simp_all
  then show ?thesis using Inr p by (simp add: after_def)
qed

lemma accounting_patch_ride:
  assumes "accounting s" "keeps_seats s (UpdateRide user i body)"
  shows "accounting (step s (UpdateRide user i body))"
proof (cases "patch_ride s user i body")
  case (Inl e)
  then show ?thesis using assms by (simp add: after_def)
next
  case (Inr p)
  then obtain r where r: "map_of (rides s) i = Some r" and c: "creatorId r = user"
    and p: "p = updateRide s i body False"
    by (auto simp: patch_ride_def getRide_def split: option.splits if_splits)
  have k: "availableSeats (spread r body) = availableSeats r" "totalSeats (spread r body) = totalSeats r"
    using assms(2) r c by (simp_all add: getRide_def)
  have u: "updateRide s i body False = (Some (spread r body), s\<lparr>rides := AList.update i (spread r body) (rides s)\<rparr>)"
    using r by (simp add: updateRide_def Let_def)
  have "accounting (s\<lparr>rides := AList.update i (spread r body) (rides s)\<rparr>)"
    using assms(1) k accountingD(2,3,4,5)[OF assms(1) r] by (intro accounting_rides_update) simp_all
  then show ?thesis using Inr p u by (simp add: after_def)
qed

lemma map_of_delete_Some: "map_of (AList.delete i al) k = Some r \<Longrightarrow> map_of al k = Some r"
  by (simp add: delete_conv split: if_splits)

lemma accounting_delete_ride:
  assumes "accounting s"
  shows "accounting (step s (DeleteRide user i))"
proof (cases "delete_ride s user i")
  case (Inl e)
  then show ?thesis using assms by (simp add: after_def)
next
  case (Inr p)
  then have p: "snd p = s\<lparr>rides := AList.delete i (rides s)\<rparr>"
    by (auto simp: delete_ride_def deleteRide_def split: option.splits if_splits)
  let ?s = "s\<lparr>rides := AList.delete i (rides s)\<rparr>"
  have b: "\<And>k. booked ?s k = booked s k" by (simp add: booked_def)
  have "accounting ?s"
  proof (rule accountingI)
    show "distinct (map fst (rides ?s))"
      using accountingD(1)[OF assms] by (simp add: distinct_delete)
  next
    fix k r
    assume "map_of (rides ?s) k = Some r"
    then have "map_of (AList.delete i (rides s)) k = Some r" by simp
    then have m: "map_of (rides s) k = Some r" by (rule map_of_delete_Some)
    show "whole (totalSeats r) \<and> whole (availableSeats r)"
      using accountingD(2)[OF assms m] .
    show "int_val (totalSeats r) \<le> 2 ^ 53"
      using accountingD(3)[OF assms m] .
    show "0 \<le> int_val (availableSeats r)"
      using accountingD(4)[OF assms m] .
    show "int_val (totalSeats r) - int_val (availableSeats r) = booked ?s k"
      using accountingD(5)[OF assms m] b by simp
  next
    fix q
    assume "q \<in> set (bookings ?s)"
    then show "whole (seatsBooked (snd q)) \<and> 1 \<le> int_val (seatsBooked (snd q))"
      using accountingD(6)[OF assms] by simp
  qed
  then show ?thesis using Inr p by (cases p) (simp add: after_def)
qed

lemma spread_seat_patch:
  "spread r (no_updates\<lparr>availableSeats_u := Some n\<rparr>) = r\<lparr>availableSeats := n\<rparr>"
  by (cases r) (simp add: spread_def no_updates_def override_def)

lemma updateRide_seats:
  assumes "map_of (rides s) i = Some r"
  shows "updateRide s i (no_updates\<lparr>availableSeats_u := Some n\<rparr>) True =
           (Some (r\<lparr>availableSeats := n,
                    status_r := (if js_le n (num 0) then FULL
                                 else if status_r r = FULL \<and> js_lt (num 0) n then OPEN
                                 else status_r r)\<rparr>),
            s\<lparr>rides := AList.update i
                  (r\<lparr>availableSeats := n,
                     status_r := (if js_le n (num 0) then FULL
                                  else if status_r r = FULL \<and> js_lt (num 0) n then OPEN
                                  else status_r r)\<rparr>) (rides s)\<rparr>)"
  using assms by (simp add: updateRide_def Let_def spread_seat_patch)

lemma post_booking_Inr:
  assumes "post_booking s user rid n i now = Inr (b, s')"
  shows "\<exists>r r'. map_of (rides s) rid = Some r \<and> isInteger n \<and> \<not> js_lt n (num 1) \<and>
           \<not> js_lt (availableSeats r) n \<and>
           creatorId r \<noteq> user \<and> status_r r \<noteq> FULL \<and>
           b = \<lparr> id_b = i, rideId = rid, userId = user, seatsBooked = n, status_b = BOOKED,
                 totalPrice = js_mul n (pricePerHead r), bookedAt = now, cancelledAt = None \<rparr> \<and>
           r' = r\<lparr>availableSeats := js_sub (availableSeats r) n,
                  status_r := (if js_le (js_sub (availableSeats r) n) (num 0) then FULL
                               else status_r r)\<rparr> \<and>
           s' = s\<lparr> rides := AList.update rid r' (rides s), bookings := AList.update i b (bookings s) \<rparr>"
proof -
  from assms obtain r where r: "map_of (rides s) rid = Some r"
    by (auto simp: post_booking_def getRide_def Let_def split: option.splits if_splits)
  from assms r have c: "isInteger n" "\<not> js_lt n (num 1)" "n \<noteq> NaN" "\<not> js_lt (availableSeats r) n"
    "creatorId r \<noteq> user" "status_r r \<noteq> FULL"
    by (auto simp: post_booking_def getRide_def Let_def insertBookingSchema_def z_number_int_min_def
        split: if_splits)
  define b0 where "b0 = \<lparr> id_b = i, rideId = rid, userId = user, seatsBooked = n, status_b = BOOKED,
                 totalPrice = js_mul n (pricePerHead r), bookedAt = now, cancelledAt = None \<rparr>"
  define s1 where "s1 = s\<lparr>bookings := AList.update i b0 (bookings s)\<rparr>"
  define r' where "r' = r\<lparr>availableSeats := js_sub (availableSeats r) n,
                  status_r := (if js_le (js_sub (availableSeats r) n) (num 0) then FULL
                               else status_r r)\<rparr>"
  have cb: "createBooking s \<lparr> rideId_i = rid, seatsBooked_i = n \<rparr> user (pricePerHead r) i now = (b0, s1)"
    by (simp add: createBooking_def b0_def s1_def Let_def)
  have r1: "map_of (rides s1) rid = Some r" using r by (simp add: s1_def)
  have u: "updateRide s1 rid (no_updates\<lparr>availableSeats_u := Some (js_sub (availableSeats r) n)\<rparr>) True =
                 (Some r', s1\<lparr>rides := AList.update rid r' (rides s1)\<rparr>)"
    using updateRide_seats[OF r1, of "js_sub (availableSeats r) n"] c(6) by (simp add: r'_def)
  have "post_booking s user rid n i now = Inr (b0, s1\<lparr>rides := AList.update rid r' (rides s1)\<rparr>)"
    using r c cb u
    by (simp add: post_booking_def getRide_def Let_def insertBookingSchema_def z_number_int_min_def)
  with assms have "b = b0" "s' = s1\<lparr>rides := AList.update rid r' (rides s1)\<rparr>" by simp_all
  then show ?thesis using r c by (simp add: b0_def s1_def r'_def)
qed

lemma delete_booking_ok:
  assumes b: "getBooking s i = Some b" and st: "status_b b = BOOKED" and u: "userId b = user"
  shows "delete_booking s user i now =
           Inr (Some (b\<lparr>status_b := BOOKING_CANCELLED, cancelledAt := Some now\<rparr>),
                s\<lparr> rides := (case map_of (rides s) (rideId b) of
                              None \<Rightarrow> rides s
                            | Some r \<Rightarrow> AList.update (rideId b)
                                (r\<lparr>availableSeats := js_add (availableSeats r) (seatsBooked b),
                                   status_r :=
                                     (if js_le (js_add (availableSeats r) (seatsBooked b)) (num 0) then FULL
                                      else if status_r r = FULL \<and>
                                              js_lt (num 0) (js_add (availableSeats r) (seatsBooked b))
                                        then OPEN
                                      else status_r r)\<rparr>)
                                (rides s)),
                   bookings := AList.update i (b\<lparr>status_b := BOOKING_CANCELLED, cancelledAt := Some now\<rparr>)
                                 (bookings s) \<rparr>)"
proof -
  define c where "c = b\<lparr>status_b := BOOKING_CANCELLED, cancelledAt := Some now\<rparr>"
  define s1 where "s1 = s\<lparr>bookings := AList.update i c (bookings s)\<rparr>"
  have m: "map_of (bookings s) i = Some b" using b by (simp add: getBooking_def)
  have cb: "cancelBooking s i now = (Some c, s1)"
    using m by (simp add: cancelBooking_def c_def s1_def Let_def)
  show ?thesis
  proof (cases "map_of (rides s) (rideId b)")
    case None
    then show ?thesis
      using b st u cb by (simp add: delete_booking_def getRide_def s1_def c_def)
  next
    case (Some r)
    then have r1: "map_of (rides s1) (rideId b) = Some r" by (simp add: s1_def)
    from updateRide_seats[OF r1, of "js_add (availableSeats r) (seatsBooked b)"]
    show ?thesis
      using b st u cb r1 Some by (simp add: delete_booking_def getRide_def s1_def c_def)
  qed
qed

lemma delete_booking_Inr:
  assumes "delete_booking s user i now = Inr (res, s')"
  shows "\<exists>b. map_of (bookings s) i = Some b \<and> userId b = user \<and> status_b b = BOOKED"
proof -
  from assms obtain b where b: "map_of (bookings s) i = Some b"
    by (auto simp: delete_booking_def getBooking_def split: option.splits)
  from assms b have "userId b = user" "status_b b = BOOKED"
    by (auto simp: delete_booking_def getBooking_def split: if_splits intro: booking_status.exhaust)
  with b show ?thesis by blast
qed

lemma set_alist_update: "p \<in> set (AList.update i v al) \<Longrightarrow> p = (i, v) \<or> p \<in> set al"
  by (induction al) (auto split: if_splits)

lemma accounting_post_booking:
  assumes acc: "accounting s" and fr: "fresh s (CreateBooking user rid n i now)"
  shows "accounting (step s (CreateBooking user rid n i now))"
proof (cases "post_booking s user rid n i now")
  case (Inl e)
  then show ?thesis using acc by (simp add: after_def)
next
  case (Inr p)
  obtain b s' where p: "p = (b, s')" by (cases p)
  from post_booking_Inr[OF Inr[unfolded p]] obtain r r' where
    r: "map_of (rides s) rid = Some r"
    and v: "isInteger n" "\<not> js_lt n (num 1)" "\<not> js_lt (availableSeats r) n"
    and bdef: "b = \<lparr> id_b = i, rideId = rid, userId = user, seatsBooked = n, status_b = BOOKED,
                 totalPrice = js_mul n (pricePerHead r), bookedAt = now, cancelledAt = None \<rparr>"
    and r'def: "r' = r\<lparr>availableSeats := js_sub (availableSeats r) n,
                  status_r := (if js_le (js_sub (availableSeats r) n) (num 0) then FULL
                               else status_r r)\<rparr>"
    and s'def: "s' = s\<lparr> rides := AList.update rid r' (rides s), bookings := AList.update i b (bookings s) \<rparr>"
    by blast
  define m where "m = int_val n"
  define a where "a = int_val (availableSeats r)"
  define t where "t = int_val (totalSeats r)"
  have nm: "n = num m" using isInteger_whole[OF v(1)] by (simp add: whole_def m_def)
  have ra: "availableSeats r = num a" "totalSeats r = num t"
    using accountingD(2)[OF acc r] by (simp_all add: whole_def a_def t_def)
  have "\<not> js_lt (num m) (num 1)" using v(2) nm by metis
  then have m1: "1 \<le> m" by simp
  have "\<not> js_lt (num a) (num m)" using v(3) nm ra(1) by metis
  then have ma: "m \<le> a" by simp
  have t53: "t \<le> 2 ^ 53" using accountingD(3)[OF acc r] by (simp add: t_def)
  have a0: "0 \<le> a" using accountingD(4)[OF acc r] by (simp add: a_def)
  have ta: "t - a = booked s rid" using accountingD(5)[OF acc r] by (simp add: t_def a_def)
  have at: "a \<le> t" using ta booked_nonneg[OF acc, of rid] by simp
  have "\<bar>a - m\<bar> \<le> 2 ^ 53" using m1 ma at t53 by simp
  then have "js_sub (num a) (num m) = num (a - m)" by (rule js_sub_num)
  then have sub: "js_sub (availableSeats r) n = num (a - m)"
    using ra(1) nm by metis
  have "seatsBooked b = n" by (simp add: bdef)
  then have b: "rideId b = rid" "status_b b = BOOKED" "seatsBooked b = num m"
    using nm by (simp_all add: bdef)
  have r': "availableSeats r' = num (a - m)" "totalSeats r' = num t"
    using sub ra(2) by (simp_all add: r'def)
  have s': "rides s' = AList.update rid r' (rides s)" "bookings s' = AList.update i b (bookings s)"
    by (simp_all add: s'def)
  have none: "map_of (bookings s) i = None"
    using fr by (simp add: map_of_eq_None_iff)
  have bs: "\<And>k. booked s' k = booked s k + (if k = rid then m else 0)"
    using booked_bookings_update[OF s'(2)] none b by (simp add: seats_for_def)
  have "accounting s'"
  proof (rule accountingI)
    show "distinct (map fst (rides s'))"
      using accountingD(1)[OF acc] s'(1) by (simp add: distinct_update)
  next
    fix k x
    assume "map_of (rides s') k = Some x"
    then have c: "(k = rid \<and> x = r') \<or> (k \<noteq> rid \<and> map_of (rides s) k = Some x)"
      using s'(1) by (simp add: update_conv' split: if_splits)
    show "whole (totalSeats x) \<and> whole (availableSeats x)"
      using c r' accountingD(2)[OF acc, of k x] by auto
    show "int_val (totalSeats x) \<le> 2 ^ 53"
      using c r' t53 accountingD(3)[OF acc, of k x] by auto
    show "0 \<le> int_val (availableSeats x)"
      using c r' ma accountingD(4)[OF acc, of k x] by auto
    show "int_val (totalSeats x) - int_val (availableSeats x) = booked s' k"
      using c
    proof
      assume "k = rid \<and> x = r'"
      then show ?thesis using ta r' bs[of rid] by simp
    next
      assume "k \<noteq> rid \<and> map_of (rides s) k = Some x"
      then show ?thesis using accountingD(5)[OF acc, of k x] bs[of k] by simp
    qed
  next
    fix q
    assume "q \<in> set (bookings s')"
    then have "q = (i, b) \<or> q \<in> set (bookings s)"
      using s'(2) set_alist_update by metis
    then show "whole (seatsBooked (snd q)) \<and> 1 \<le> int_val (seatsBooked (snd q))"
      using accountingD(6)[OF acc, of q] b m1 by auto
  qed
  then show ?thesis using Inr p by (simp add: after_def)
qed

lemma accounting_delete_booking:
  assumes acc: "accounting s"
  shows "accounting (step s (CancelBooking user i now))"
proof (cases "delete_booking s user i now")
  case (Inl e)
  then show ?thesis using acc by (simp add: after_def)
next
  case (Inr p)
  obtain res s' where p: "p = (res, s')" by (cases p)
  from delete_booking_Inr[OF Inr[unfolded p]] obtain b where
    b: "map_of (bookings s) i = Some b" "userId b = user" "status_b b = BOOKED"
    by blast
  define c where "c = b\<lparr>status_b := BOOKING_CANCELLED, cancelledAt := Some now\<rparr>"
  define m where "m = int_val (seatsBooked b)"
  have gb: "getBooking s i = Some b" using b(1) by (simp add: getBooking_def)
  have mem: "(i, b) \<in> set (bookings s)" using map_of_SomeD[OF b(1)] .
  have bm: "seatsBooked b = num m" "1 \<le> m"
    using accountingD(6)[OF acc mem] by (simp_all add: whole_def m_def)
  have s'def: "s' = s\<lparr> rides := (case map_of (rides s) (rideId b) of
                              None \<Rightarrow> rides s
                            | Some r \<Rightarrow> AList.update (rideId b)
                                (r\<lparr>availableSeats := js_add (availableSeats r) (seatsBooked b),
                                   status_r :=
                                     (if js_le (js_add (availableSeats r) (seatsBooked b)) (num 0) then FULL
                                      else if status_r r = FULL \<and>
                                              js_lt (num 0) (js_add (availableSeats r) (seatsBooked b))
                                        then OPEN
                                      else status_r r)\<rparr>)
                                (rides s)),
                   bookings := AList.update i c (bookings s) \<rparr>"
    using delete_booking_ok[OF gb b(3) b(2), of now] Inr p by (simp add: c_def)
  have cc: "rideId c = rideId b" "status_b c = BOOKING_CANCELLED" "seatsBooked c = num m"
    by (simp_all add: c_def bm)
  have sb: "bookings s' = AList.update i c (bookings s)" by (simp add: s'def)
  have bs: "\<And>k. booked s' k = booked s k - (if k = rideId b then m else 0)"
    using booked_bookings_update[OF sb] b cc bm by (simp add: seats_for_def)
  have bk: "\<And>q. q \<in> set (bookings s') \<Longrightarrow>
      whole (seatsBooked (snd q)) \<and> 1 \<le> int_val (seatsBooked (snd q))"
  proof -
    fix q
    assume "q \<in> set (bookings s')"
    then have "q = (i, c) \<or> q \<in> set (bookings s)"
      using sb set_alist_update by metis
    then show "whole (seatsBooked (snd q)) \<and> 1 \<le> int_val (seatsBooked (snd q))"
      using accountingD(6)[OF acc, of q] cc bm by auto
  qed
  have nn: "\<And>k. 0 \<le> booked s' k"
  proof -
    fix k
    have "\<And>q. q \<in> set (bookings s') \<Longrightarrow> 0 \<le> seats_for k (snd q)"
      using bk by (fastforce simp: seats_for_def)
    then show "0 \<le> booked s' k" unfolding booked_def by (intro sum_list_nonneg) auto
  qed
  have rk: "\<And>k x. map_of (rides s') k = Some x \<Longrightarrow>
      (k = rideId b \<and> (\<exists>r. map_of (rides s) k = Some r \<and> totalSeats x = totalSeats r
                  \<and> availableSeats x = js_add (availableSeats r) (num m)))
             \<or> (k \<noteq> rideId b \<and> map_of (rides s) k = Some x)"
  proof -
    fix k x
    assume kx: "map_of (rides s') k = Some x"
    show "(k = rideId b \<and> (\<exists>r. map_of (rides s) k = Some r \<and> totalSeats x = totalSeats r
                  \<and> availableSeats x = js_add (availableSeats r) (num m)))
             \<or> (k \<noteq> rideId b \<and> map_of (rides s) k = Some x)"
    proof (cases "map_of (rides s) (rideId b)")
      case None
      then show ?thesis using kx by (auto simp: s'def)
    next
      case (Some r)
      then show ?thesis using kx bm by (auto simp: s'def update_conv' split: if_splits)
    qed
  qed
  have "accounting s'"
  proof (rule accountingI)
    show "distinct (map fst (rides s'))"
      using accountingD(1)[OF acc] by (simp add: s'def distinct_update split: option.splits)
  next
    fix k x
    assume kx: "map_of (rides s') k = Some x"
    have "whole (totalSeats x) \<and> whole (availableSeats x) \<and> int_val (totalSeats x) \<le> 2 ^ 53 \<and>
          0 \<le> int_val (availableSeats x) \<and>
          int_val (totalSeats x) - int_val (availableSeats x) = booked s' k"
      using rk[OF kx]
    proof
      assume "k = rideId b \<and> (\<exists>r. map_of (rides s) k = Some r \<and> totalSeats x = totalSeats r
                  \<and> availableSeats x = js_add (availableSeats r) (num m))"
      then obtain r where k: "k = rideId b" and r: "map_of (rides s) k = Some r"
        and x: "totalSeats x = totalSeats r" "availableSeats x = js_add (availableSeats r) (num m)"
        by blast
      define a where "a = int_val (availableSeats r)"
      define t where "t = int_val (totalSeats r)"
      have ra: "availableSeats r = num a" "totalSeats r = num t"
        using accountingD(2)[OF acc r] by (simp_all add: whole_def a_def t_def)
      have t53: "t \<le> 2 ^ 53" using accountingD(3)[OF acc r] by (simp add: t_def)
      have a0: "0 \<le> a" using accountingD(4)[OF acc r] by (simp add: a_def)
      have ta: "t - a = booked s k" using accountingD(5)[OF acc r] by (simp add: t_def a_def)
      have "0 \<le> booked s k - m" using nn[of k] bs[of k] k by simp
      then have am: "a + m \<le> t" using ta by simp
      have "\<bar>a + m\<bar> \<le> 2 ^ 53" using am a0 bm(2) t53 by simp
      then have "js_add (num a) (num m) = num (a + m)" by (rule js_add_num)
      then have xa: "availableSeats x = num (a + m)" "totalSeats x = num t"
        using x ra by simp_all
      show ?thesis using xa t53 a0 bm(2) ta bs[of k] k by simp
    next
      assume "k \<noteq> rideId b \<and> map_of (rides s) k = Some x"
      then show ?thesis
        using accountingD(2,3,4,5)[OF acc, of k x] bs[of k] by simp
    qed
    then show "whole (totalSeats x) \<and> whole (availableSeats x)"
      and "int_val (totalSeats x) \<le> 2 ^ 53"
      and "0 \<le> int_val (availableSeats x)"
      and "int_val (totalSeats x) - int_val (availableSeats x) = booked s' k"
      by simp_all
  next
    fix q
    assume "q \<in> set (bookings s')"
    then show "whole (seatsBooked (snd q)) \<and> 1 \<le> int_val (seatsBooked (snd q))"
      by (rule bk)
  qed
  then show ?thesis using Inr p by (simp add: after_def)
qed

lemma accounting_step:
  assumes "accounting s" "fresh s q" "keeps_seats s q" "safe_seats q"
  shows "accounting (step s q)"
proof (cases q)
  case (CreateRide user body i now)
  then show ?thesis using assms accounting_post_ride by metis
next
  case (UpdateRide user i body)
  then show ?thesis using assms accounting_patch_ride by metis
next
  case (DeleteRide user i)
  then show ?thesis using assms accounting_delete_ride by metis
next
  case (CreateBooking user rid n i now)
  then show ?thesis using assms accounting_post_booking by metis
next
  case (CancelBooking user i now)
  then show ?thesis using assms accounting_delete_booking by metis
qed

lemma accounting_exec:
  "accounting s \<Longrightarrow> fresh_ids s qs \<Longrightarrow> seats_kept s qs \<Longrightarrow> list_all safe_seats qs \<Longrightarrow>
   accounting (exec s qs)"
proof (induction qs arbitrary: s)
  case Nil
  then show ?case by simp
next
  case (Cons q qs)
  then show ?case using accounting_step[of s q] by simp
qed

lemma accounting_consistent: "accounting s \<Longrightarrow> consistent s"
  unfolding consistent_def list_all_iff
proof (intro ballI)
  fix p assume a: "accounting s" and p: "p \<in> set (rides s)"
  obtain k r where kr: "p = (k, r)" by (cases p)
  have m: "map_of (rides s) k = Some r"
    using accountingD(1)[OF a] p kr by simp
  have b: "bookedSeats s k = Some (of_int (booked s k))"
    using accountingD(6)[OF a] by (intro bookedSeats_booked) simp
  have "totalSeats r = Fin (of_int (int_val (totalSeats r)))"
    "availableSeats r = Fin (of_int (int_val (availableSeats r)))"
    using accountingD(2)[OF a m] by (simp_all add: whole_def num_def)
  then have "balanced (totalSeats r) (availableSeats r) (bookedSeats s k) \<longleftrightarrow>
      (of_int (int_val (totalSeats r)) - of_int (int_val (availableSeats r)) = (of_int (booked s k) :: rat)
       \<and> (0::rat) \<le> of_int (int_val (availableSeats r)))"
    using b by (metis balanced.simps(1))
  moreover have "(of_int (int_val (totalSeats r)) - of_int (int_val (availableSeats r)) :: rat)
       = of_int (booked s k)"
    using accountingD(5)[OF a m] by (metis of_int_diff)
  moreover have "(0::rat) \<le> of_int (int_val (availableSeats r))"
    using accountingD(4)[OF a m] by simp
  ultimately show "case p of (k, r) \<Rightarrow> balanced (totalSeats r) (availableSeats r) (bookedSeats s k)"
    using kr by simp
qed


section \<open>Effects of the handlers\<close>

lemma patch_ride_bookings: "bookings (step s (UpdateRide u k body)) = bookings s"
  by (simp add: after_def patch_ride_def updateRide_def Let_def
      split: option.splits sum.splits)

lemma post_ride_bookings: "bookings (step s (CreateRide u body k now)) = bookings s"
  by (simp add: after_def post_ride_def createRide_def Let_def split: sum.splits)

lemma delete_ride_bookings: "bookings (step s (DeleteRide u k)) = bookings s"
  by (simp add: after_def delete_ride_def deleteRide_def split: option.splits sum.splits)

lemma seat_change_keeps_cancelled:
  assumes "getRide s i = Some r" and "status_r r = CANCELLED"
  shows "seats_and_status (snd (updateRide s i (no_updates\<lparr>availableSeats_u := Some n\<rparr>) True)) i
           = Some (n, if js_le n (num 0) then FULL else CANCELLED)"
proof -
  from assms(1) have m: "map_of (rides s) i = Some r" by (simp add: getRide_def)
  from updateRide_seats[OF m, of n] assms(2) show ?thesis
    by (auto simp: seats_and_status_def getRide_def update_conv')
qed

text \<open>A cancelled booking stays as it is, whatever is requested next.\<close>

lemma cancelled_booking_step:
  assumes g: "getBooking s i = Some c" and st: "status_b c = BOOKING_CANCELLED" and fr: "fresh s q"
  shows "getBooking (step s q) i = Some c"
proof (cases q)
  case (CreateRide user body k now)
  then show ?thesis using g by (simp only: getBooking_def post_ride_bookings)
next
  case (UpdateRide user k body)
  then show ?thesis using g by (simp only: getBooking_def patch_ride_bookings)
next
  case (DeleteRide user k)
  then show ?thesis using g by (simp only: getBooking_def delete_ride_bookings)
next
  case (CreateBooking user rid n j now)
  have m: "map_of (bookings s) i = Some c" using g by (simp add: getBooking_def)
  have "i \<in> set (map fst (bookings s))" using map_of_SomeD[OF m] by force
  then have ji: "j \<noteq> i" using fr CreateBooking by auto
  show ?thesis
  proof (cases "post_booking s user rid n j now")
    case (Inl e)
    then show ?thesis using g CreateBooking by (simp add: after_def)
  next
    case (Inr p)
    obtain b s' where p: "p = (b, s')" by (cases p)
    from post_booking_Inr[OF Inr[unfolded p]] have "bookings s' = AList.update j b (bookings s)"
      by auto
    then have "getBooking s' i = Some c" using m ji by (simp add: getBooking_def update_conv')
    then show ?thesis using Inr p CreateBooking by (simp add: after_def)
  qed
next
  case (CancelBooking user j now)
  show ?thesis
  proof (cases "delete_booking s user j now")
    case (Inl e)
    then show ?thesis using g CancelBooking by (simp add: after_def)
  next
    case (Inr p)
    obtain res s' where p: "p = (res, s')" by (cases p)
    from delete_booking_Inr[OF Inr[unfolded p]] obtain b where
      b: "map_of (bookings s) j = Some b" "userId b = user" "status_b b = BOOKED" by blast
    have ji: "j \<noteq> i" using b g st by (auto simp: getBooking_def)
    have gb: "getBooking s j = Some b" using b(1) by (simp add: getBooking_def)
    from delete_booking_ok[OF gb b(3) b(2), of now] Inr p
    have "bookings s' = AList.update j (b\<lparr>status_b := BOOKING_CANCELLED, cancelledAt := Some now\<rparr>) (bookings s)"
      by simp
    then have "getBooking s' i = Some c" using g ji by (simp add: getBooking_def update_conv')
    then show ?thesis using Inr p CancelBooking by (simp add: after_def)
  qed
qed

lemma cancelled_booking_exec:
  "getBooking s i = Some c \<Longrightarrow> status_b c = BOOKING_CANCELLED \<Longrightarrow> fresh_ids s qs \<Longrightarrow>
   getBooking (exec s qs) i = Some c"
proof (induction qs arbitrary: s)
  case Nil
  then show ?case by simp
next
  case (Cons q qs)
  then show ?case using cancelled_booking_step[of s i c q] by simp
qed

section \<open>Claims\<close>

text \<open>
  C1, as amended. In every storage reached from the empty one by a sequence of CreateRide,
  UpdateRide, DeleteRide, CreateBooking and CancelBooking requests, run one after the
  other with newly generated identifiers, in which no UpdateRide changes
  \<open>availableSeats\<close> or \<open>totalSeats\<close> (a patch may send their current values again) and
  every ride is created with at most \<open>2 ^ 53\<close> seats, every stored ride has
  \<open>totalSeats - availableSeats\<close> equal to the sum of \<open>seatsBooked\<close> over the BOOKED
  bookings that refer to it, and its \<open>availableSeats\<close> is not negative.
\<close>

theorem seat_accounting_invariant:
  assumes "fresh_ids empty_storage qs" and "seats_kept empty_storage qs"
    and "list_all safe_seats qs"
  shows "consistent (exec empty_storage qs)"
  using assms accounting_empty by (intro accounting_consistent accounting_exec)

theorem seat_accounting_invariant_witness:
  "fresh_ids empty_storage busy_trace \<and> seats_kept empty_storage busy_trace \<and>
   list_all safe_seats busy_trace \<and> consistent (exec empty_storage busy_trace)"
proof -
  have f: "fresh_ids empty_storage busy_trace" by code_simp
  have k: "seats_kept empty_storage busy_trace" by code_simp
  have b: "list_all safe_seats busy_trace" by code_simp
  from f k b seat_accounting_invariant[OF f k b] show ?thesis by blast
qed

text \<open>
  C1, counterexample. The equation fails after an edit that changes the seat counter (a
  ride of two seats with one BOOKED seat whose creator sets \<open>availableSeats\<close> back to
  2), and, without any edit, on a ride of \<open>2 ^ 53 + 2\<close> seats: booking one seat stores
  the double nearest to \<open>2 ^ 53 + 1\<close>, which is \<open>2 ^ 53\<close>.
\<close>

theorem seat_accounting_counterexample:
  "fresh_ids empty_storage edited_seats_trace \<and> list_all safe_seats edited_seats_trace \<and>
   \<not> consistent (exec empty_storage edited_seats_trace) \<and>
   fresh_ids empty_storage huge_ride_trace \<and> seats_kept empty_storage huge_ride_trace \<and>
   \<not> consistent (exec empty_storage huge_ride_trace)"
  by code_simp




text \<open>
  C3, as amended. When the ride exists, the caller is not its creator and the request is
  valid (a whole number of seats, at least one), the capacity check comes first: a
  request for more seats than \<open>availableSeats\<close> fails with "Not enough seats
  available" (InsufficientCapacity), whatever the status; a request that fits on a ride
  whose status is FULL fails with "This ride is fully booked" (InvalidOperation).
\<close>

theorem booking_capacity_check_first:
  assumes "getRide s rid = Some r" and "creatorId r \<noteq> user"
    and "insertBookingSchema \<lparr> rideId_i = rid, seatsBooked_i = seats \<rparr>"
    and "js_lt (availableSeats r) seats \<or> status_r r = FULL"
  shows "post_booking s user rid seats i now =
           Inl (if js_lt (availableSeats r) seats then NotEnoughSeats else FullyBooked) \<and>
         error_kind (if js_lt (availableSeats r) seats then NotEnoughSeats else FullyBooked) =
           (if js_lt (availableSeats r) seats then InsufficientCapacity else InvalidOperation)"
  using assms by (auto simp: post_booking_def Let_def)

theorem booking_capacity_check_first_witness:
  "map_option (\<lambda>r. (creatorId r, availableSeats r, status_r r))
      (getRide (exec empty_storage manual_full) ''r1'') = Some (''u1'', num 2, FULL) \<and>
   insertBookingSchema \<lparr> rideId_i = ''r1'', seatsBooked_i = num 2 \<rparr> \<and>
   post_booking (exec empty_storage manual_full) ''u3'' ''r1'' (num 2) ''b2'' ''t3'' = Inl FullyBooked \<and>
   error_kind FullyBooked = InvalidOperation"
proof -
  let ?r = "\<lparr> id_r = ''r1'', creatorId = ''u1'', from_r = ''VIT'', to_r = ''Bhopal'',
     date = ''2025-01-01'', time = ''10:00'', vehicleType = Car, availableSeats = num 2,
     totalSeats = num 3, pricePerHead = num 100, whatsappLink = ''https://wa.me/919999999999'',
     additionalMsg = Some [], status_r = FULL, createdAt = ''t0'' \<rparr>"
  have r: "getRide (exec empty_storage manual_full) ''r1'' = Some ?r"
    by code_simp
  have h: "creatorId ?r \<noteq> ''u3''"
    "insertBookingSchema \<lparr> rideId_i = ''r1'', seatsBooked_i = num 2 \<rparr>"
    "js_lt (availableSeats ?r) (num 2) \<or> status_r ?r = FULL"
    by (simp_all add: insertBookingSchema_def z_number_int_min_def)
  from booking_capacity_check_first[OF r h, of "''b2''" "''t3''"] r h(2)
  show ?thesis by simp
qed

text \<open>
  C3, counterexample. A ride that is FULL with no seat left answers a booking of one seat
  with InsufficientCapacity, not with InvalidOperation.
\<close>

theorem booking_status_check_counterexample:
  "seats_and_status (exec empty_storage sold_out) ''r1'' = Some (num 0, FULL) \<and>
   map_option creatorId (getRide (exec empty_storage sold_out) ''r1'') = Some ''u1'' \<and>
   post_booking (exec empty_storage sold_out) ''u3'' ''r1'' (num 1) ''b2'' ''t2'' = Inl NotEnoughSeats \<and>
   error_kind NotEnoughSeats \<noteq> InvalidOperation"
  by code_simp

text \<open>
  C4. A ride of three seats has one seat booked; its creator sets the status to FULL while
  two seats are available; the booking is then cancelled. The seat restoration finds the
  status FULL and sets it to OPEN: \<open>updateRide\<close> reopens every FULL ride, also one
  closed by hand.
\<close>

theorem manual_full_reopened:
  "seats_and_status (exec empty_storage manual_full) ''r1'' = Some (num 2, FULL) \<and>
   seats_and_status (exec empty_storage (manual_full @ [CancelBooking ''u2'' ''b1'' ''t2''])) ''r1''
     = Some (num 3, OPEN)"
  by code_simp

text \<open>
  C5. The creator of a ride of one seat sets its status to CANCELLED. The booking route
  turns away only the status FULL, so another user books the seat, and the seat update
  makes the ride FULL; cancelling that booking restores the seat and sets the status to
  OPEN.
\<close>

theorem manual_cancelled_reopened:
  "seats_and_status (exec empty_storage manual_cancelled) ''r1'' = Some (num 1, CANCELLED) \<and>
   seats_and_status (exec empty_storage
      (manual_cancelled @ [CreateBooking ''u2'' ''r1'' (num 1) ''b1'' ''t1''])) ''r1'' = Some (num 0, FULL) \<and>
   seats_and_status (exec empty_storage
      (manual_cancelled @ [CreateBooking ''u2'' ''r1'' (num 1) ''b1'' ''t1'',
                           CancelBooking ''u2'' ''b1'' ''t2''])) ''r1'' = Some (num 1, OPEN)"
  by code_simp

text \<open>
  C6, as amended. For a BOOKED booking, the first CancelBooking of its owner succeeds and
  leaves the booking CANCELLED. Every later CancelBooking on it fails, whatever was
  requested in between: the owner's with "Booking already cancelled" (InvalidOperation),
  another caller's with "Not authorized to cancel this booking"; the second call changes
  nothing. After both calls the ride of the booking, if it is stored, has as
  \<open>availableSeats\<close> the double sum of its former value and \<open>seatsBooked\<close>, added once;
  that is their sum whenever both are integers and the sum is at most \<open>2 ^ 53\<close> in
  magnitude.
\<close>

theorem cancel_twice:
  assumes "getBooking s i = Some b" and "status_b b = BOOKED" and "userId b = user"
    and "fresh_ids (step s (CancelBooking user i now)) qs"
    and "\<bar>a + n\<bar> \<le> 2 ^ 53"
  shows "\<exists>c. delete_booking s user i now = Inr (Some c, step s (CancelBooking user i now)) \<and>
           status_b c = BOOKING_CANCELLED \<and>
           getBooking (step s (CancelBooking user i now)) i = Some c \<and>
           delete_booking (exec (step s (CancelBooking user i now)) qs) user2 i now' =
             Inl (if user2 = user then AlreadyCancelled else NotAuthorizedCancel) \<and>
           error_kind AlreadyCancelled = InvalidOperation \<and>
           exec s [CancelBooking user i now, CancelBooking user2 i now'] =
             step s (CancelBooking user i now) \<and>
           map_option availableSeats (getRide (step s (CancelBooking user i now)) (rideId b)) =
             map_option (\<lambda>r. js_add (availableSeats r) (seatsBooked b)) (getRide s (rideId b)) \<and>
           js_add (num a) (num n) = num (a + n)"
proof -
  define c where "c = b\<lparr>status_b := BOOKING_CANCELLED, cancelledAt := Some now\<rparr>"
  define rs where "rs = (case map_of (rides s) (rideId b) of
                              None \<Rightarrow> rides s
                            | Some r \<Rightarrow> AList.update (rideId b)
                                (r\<lparr>availableSeats := js_add (availableSeats r) (seatsBooked b),
                                   status_r :=
                                     (if js_le (js_add (availableSeats r) (seatsBooked b)) (num 0) then FULL
                                      else if status_r r = FULL \<and>
                                              js_lt (num 0) (js_add (availableSeats r) (seatsBooked b))
                                        then OPEN
                                      else status_r r)\<rparr>)
                                (rides s))"
  define s1 where "s1 = s\<lparr>rides := rs, bookings := AList.update i c (bookings s)\<rparr>"
  have first: "delete_booking s user i now = Inr (Some c, s1)"
    using delete_booking_ok[OF assms(1-3), of now] by (simp add: c_def rs_def s1_def)
  then have st: "step s (CancelBooking user i now) = s1" by (simp add: after_def)
  have c: "status_b c = BOOKING_CANCELLED" "userId c = user"
    using assms(3) by (simp_all add: c_def)
  have g: "getBooking s1 i = Some c"
    by (simp add: getBooking_def s1_def update_conv')
  have later: "getBooking (exec s1 qs) i = Some c"
    using cancelled_booking_exec[OF g c(1)] assms(4) st by simp
  have second: "delete_booking (exec s1 qs) user2 i now' =
             Inl (if user2 = user then AlreadyCancelled else NotAuthorizedCancel)"
    using later c by (simp add: delete_booking_def)
  have "delete_booking s1 user2 i now' =
             Inl (if user2 = user then AlreadyCancelled else NotAuthorizedCancel)"
    using g c by (simp add: delete_booking_def)
  then have both: "exec s [CancelBooking user i now, CancelBooking user2 i now'] = s1"
    using first by (simp add: after_def)
  have seats: "map_option availableSeats (getRide s1 (rideId b)) =
             map_option (\<lambda>r. js_add (availableSeats r) (seatsBooked b)) (getRide s (rideId b))"
    by (cases "map_of (rides s) (rideId b)") (simp_all add: getRide_def s1_def rs_def update_conv')
  have exact: "js_add (num a) (num n) = num (a + n)"
    using assms(5) by (rule js_add_num)
  show ?thesis unfolding st using first c(1) g second both seats exact by simp
qed

theorem cancel_twice_witness:
  "getBooking (exec empty_storage two_bookings) ''b2'' =
     Some \<lparr> id_b = ''b2'', rideId = ''r1'', userId = ''u3'', seatsBooked = num 1, status_b = BOOKED,
            totalPrice = num 100, bookedAt = ''t2'', cancelledAt = None \<rparr> \<and>
   seats_and_status (exec empty_storage two_bookings) ''r1'' = Some (num 0, FULL) \<and>
   fresh_ids (step (exec empty_storage two_bookings) (CancelBooking ''u3'' ''b2'' ''t3''))
     [CreateBooking ''u2'' ''r1'' (num 1) ''b3'' ''t4''] \<and>
   (\<exists>c. delete_booking (exec empty_storage two_bookings) ''u3'' ''b2'' ''t3'' =
           Inr (Some c, step (exec empty_storage two_bookings) (CancelBooking ''u3'' ''b2'' ''t3'')) \<and>
      status_b c = BOOKING_CANCELLED \<and>
      delete_booking
        (exec (step (exec empty_storage two_bookings) (CancelBooking ''u3'' ''b2'' ''t3''))
           [CreateBooking ''u2'' ''r1'' (num 1) ''b3'' ''t4''])
        ''u3'' ''b2'' ''t5'' = Inl AlreadyCancelled \<and>
      map_option availableSeats
        (getRide (step (exec empty_storage two_bookings) (CancelBooking ''u3'' ''b2'' ''t3'')) ''r1'')
        = Some (num 1))"
proof -
  let ?s = "exec empty_storage two_bookings"
  let ?b = "\<lparr> id_b = ''b2'', rideId = ''r1'', userId = ''u3'', seatsBooked = num 1, status_b = BOOKED,
            totalPrice = num 100, bookedAt = ''t2'', cancelledAt = None \<rparr>"
  have g: "getBooking ?s ''b2'' = Some ?b" by code_simp
  have h: "status_b ?b = BOOKED" "userId ?b = ''u3''" by simp_all
  have f: "fresh_ids (step ?s (CancelBooking ''u3'' ''b2'' ''t3''))
     [CreateBooking ''u2'' ''r1'' (num 1) ''b3'' ''t4'']" by code_simp
  have e: "\<bar>(0::int) + 1\<bar> \<le> 2 ^ 53" by simp
  have r: "seats_and_status ?s ''r1'' = Some (num 0, FULL)" by code_simp
  then have a: "map_option availableSeats (getRide ?s ''r1'') = Some (num 0)"
    by (auto simp: seats_and_status_def)
  from cancel_twice[OF g h f e, of "''u3''" "''t5''"] obtain c where
    c: "delete_booking ?s ''u3'' ''b2'' ''t3'' = Inr (Some c, step ?s (CancelBooking ''u3'' ''b2'' ''t3''))"
    "status_b c = BOOKING_CANCELLED"
    "delete_booking
        (exec (step ?s (CancelBooking ''u3'' ''b2'' ''t3''))
           [CreateBooking ''u2'' ''r1'' (num 1) ''b3'' ''t4''])
        ''u3'' ''b2'' ''t5'' = Inl AlreadyCancelled"
    "map_option availableSeats (getRide (step ?s (CancelBooking ''u3'' ''b2'' ''t3'')) ''r1'') =
       map_option (\<lambda>r. js_add (availableSeats r) (num 1)) (getRide ?s ''r1'')"
    "js_add (num 0) (num 1) = num (0 + 1)"
    by auto
  have "map_option (\<lambda>r. js_add (availableSeats r) (num 1)) (getRide ?s ''r1'') = Some (num 1)"
    using a c(5) by auto
  with c g r f show ?thesis by auto
qed

text \<open>
  C6, counterexample. On the ride of \<open>2 ^ 53 + 2\<close> seats with one seat booked, which has
  \<open>2 ^ 53\<close> seats available, cancelling the booking leaves \<open>2 ^ 53\<close> seats available:
  the counter is not raised by the seat of the booking.
\<close>

theorem cancel_twice_counterexample:
  "seats_and_status (exec empty_storage huge_ride_trace) ''r1'' = Some (num 9007199254740992, OPEN) \<and>
   map_option seatsBooked (getBooking (exec empty_storage huge_ride_trace) ''b1'') = Some (num 1) \<and>
   map_option status_b (getBooking (exec empty_storage huge_ride_trace) ''b1'') = Some BOOKED \<and>
   map_option userId (getBooking (exec empty_storage huge_ride_trace) ''b1'') = Some ''u2'' \<and>
   seats_and_status
     (exec empty_storage
        (huge_ride_trace @ [CancelBooking ''u2'' ''b1'' ''t2'', CancelBooking ''u2'' ''b1'' ''t3'']))
     ''r1'' = Some (num 9007199254740992, OPEN)"
  by code_simp

text \<open>
  C7, as amended. A booking that is created has as \<open>totalPrice\<close> the double product of
  \<open>seatsBooked\<close> and \<open>pricePerHead\<close>, the price being the one of the ride read before
  the booking; that is their product whenever both are integers and the product is at
  most \<open>2 ^ 53\<close> in magnitude. An UpdateRide, whatever its patch, leaves the bookings as
  they are, so the booking keeps its \<open>totalPrice\<close>.
\<close>

theorem price_snapshot:
  assumes "post_booking s user rid seats i now = Inr (b, s1)"
    and "\<bar>m * p\<bar> \<le> 2 ^ 53"
  shows "map_option (\<lambda>r. js_mul (seatsBooked b) (pricePerHead r)) (getRide s rid) = Some (totalPrice b) \<and>
         seatsBooked b = seats \<and>
         getBooking s1 i = Some b \<and>
         getBooking (step s1 (UpdateRide u rid body)) i = Some b \<and>
         bookings (step s' (UpdateRide u' k body')) = bookings s' \<and>
         js_mul (num m) (num p) = num (m * p)"
proof -
  from post_booking_Inr[OF assms(1)] obtain r r' where
    r: "map_of (rides s) rid = Some r"
    and bdef: "b = \<lparr> id_b = i, rideId = rid, userId = user, seatsBooked = seats, status_b = BOOKED,
                 totalPrice = js_mul seats (pricePerHead r), bookedAt = now, cancelledAt = None \<rparr>"
    and s1: "s1 = s\<lparr> rides := AList.update rid r' (rides s), bookings := AList.update i b (bookings s) \<rparr>"
    by blast
  have g: "getBooking s1 i = Some b" by (simp add: s1 getBooking_def update_conv')
  have "getBooking (step s1 (UpdateRide u rid body)) i = Some b"
    using g by (simp only: getBooking_def patch_ride_bookings)
  moreover have "js_mul (num m) (num p) = num (m * p)" using assms(2) by (rule js_mul_num)
  ultimately show ?thesis using r bdef g patch_ride_bookings[of s' u' k body']
    by (simp add: getRide_def)
qed

theorem price_snapshot_witness:
  "(\<exists>b s1. post_booking (exec empty_storage one_ride) ''u2'' ''r1'' (num 2) ''b1'' ''t1'' = Inr (b, s1) \<and>
      map_option pricePerHead (getRide (exec empty_storage one_ride) ''r1'') = Some (num 100) \<and>
      seatsBooked b = num 2 \<and> totalPrice b = num 200 \<and>
      map_option pricePerHead
        (getRide (step s1 (UpdateRide ''u1'' ''r1'' (no_updates\<lparr>pricePerHead_u := Some (Fin (501 / 2))\<rparr>))) ''r1'')
        = Some (Fin (501 / 2)) \<and>
      getBooking (step s1 (UpdateRide ''u1'' ''r1'' (no_updates\<lparr>pricePerHead_u := Some (Fin (501 / 2))\<rparr>))) ''b1''
        = Some b)"
proof -
  let ?b = "\<lparr> id_b = ''b1'', rideId = ''r1'', userId = ''u2'', seatsBooked = num 2, status_b = BOOKED,
            totalPrice = num 200, bookedAt = ''t1'', cancelledAt = None \<rparr>"
  let ?s1 = "exec empty_storage (one_ride @ [CreateBooking ''u2'' ''r1'' (num 2) ''b1'' ''t1''])"
  have p: "post_booking (exec empty_storage one_ride) ''u2'' ''r1'' (num 2) ''b1'' ''t1'' = Inr (?b, ?s1)"
    by code_simp
  have q: "map_option pricePerHead (getRide (exec empty_storage one_ride) ''r1'') = Some (num 100)"
    by code_simp
  have n: "map_option pricePerHead
        (getRide (step ?s1 (UpdateRide ''u1'' ''r1'' (no_updates\<lparr>pricePerHead_u := Some (Fin (501 / 2))\<rparr>))) ''r1'')
        = Some (Fin (501 / 2))"
    by code_simp
  have e: "\<bar>(2::int) * 100\<bar> \<le> 2 ^ 53" by simp
  from price_snapshot[OF p e, of "''u1''" "no_updates\<lparr>pricePerHead_u := Some (Fin (501 / 2))\<rparr>"]
  have "getBooking (step ?s1 (UpdateRide ''u1'' ''r1'' (no_updates\<lparr>pricePerHead_u := Some (Fin (501 / 2))\<rparr>))) ''b1''
        = Some ?b" by blast
  with p q n show ?thesis by simp
qed

text \<open>
  C7, counterexample. Three seats at the price \<open>2 ^ 53 - 1\<close> are stored with the total
  price 27021597764222972, the double nearest to the product 27021597764222973.
\<close>

theorem price_snapshot_counterexample:
  "map_option pricePerHead (getRide (exec empty_storage costly_ride) ''r1'')
     = Some (num 9007199254740991) \<and>
   map_option seatsBooked
     (getBooking (exec empty_storage (costly_ride @ [CreateBooking ''u2'' ''r1'' (num 3) ''b1'' ''t1'']))
        ''b1'') = Some (num 3) \<and>
   map_option totalPrice
     (getBooking (exec empty_storage (costly_ride @ [CreateBooking ''u2'' ''r1'' (num 3) ''b1'' ''t1'']))
        ''b1'') = Some (num 27021597764222972) \<and>
   (3::int) * 9007199254740991 \<noteq> 27021597764222972"
  by code_simp

text \<open>
  C8. When the owner cancels a BOOKED booking whose ride is not stored any more, the call
  succeeds: the booking is CANCELLED with \<open>cancelledAt\<close> set, and the rides are left as
  they are.
\<close>

theorem cancel_without_ride:
  assumes "getBooking s i = Some b" and "status_b b = BOOKED" and "userId b = user"
    and "getRide s (rideId b) = None"
  shows "\<exists>c s'. delete_booking s user i now = Inr (Some c, s') \<and>
           status_b c = BOOKING_CANCELLED \<and> cancelledAt c = Some now \<and>
           getBooking s' i = Some c \<and> rides s' = rides s"
proof -
  have "map_of (rides s) (rideId b) = None" using assms(4) by (simp add: getRide_def)
  with delete_booking_ok[OF assms(1-3), of now] show ?thesis
    by (simp add: getBooking_def update_conv')
qed

theorem cancel_without_ride_witness:
  "getBooking (exec empty_storage orphaned) ''b1'' =
     Some \<lparr> id_b = ''b1'', rideId = ''r1'', userId = ''u2'', seatsBooked = num 2, status_b = BOOKED,
            totalPrice = num 200, bookedAt = ''t1'', cancelledAt = None \<rparr> \<and>
   getRide (exec empty_storage orphaned) ''r1'' = None \<and>
   (\<exists>c s'. delete_booking (exec empty_storage orphaned) ''u2'' ''b1'' ''t2'' = Inr (Some c, s') \<and>
      status_b c = BOOKING_CANCELLED \<and> cancelledAt c = Some ''t2'' \<and>
      getBooking s' ''b1'' = Some c \<and> rides s' = rides (exec empty_storage orphaned))"
proof -
  let ?b = "\<lparr> id_b = ''b1'', rideId = ''r1'', userId = ''u2'', seatsBooked = num 2, status_b = BOOKED,
            totalPrice = num 200, bookedAt = ''t1'', cancelledAt = None \<rparr>"
  have g: "getBooking (exec empty_storage orphaned) ''b1'' = Some ?b" by code_simp
  have h: "status_b ?b = BOOKED" "userId ?b = ''u2''" by simp_all
  have n: "getRide (exec empty_storage orphaned) ''r1'' = None" by code_simp
  then have n': "getRide (exec empty_storage orphaned) (rideId ?b) = None" by simp
  from cancel_without_ride[OF g h n', of "''t2''"] g n show ?thesis by simp
qed

text \<open>
  C9. A ride that POST /api/rides accepts is stored with \<open>availableSeats = totalSeats\<close>,
  both the seat count of the input, and with status OPEN; an input whose seat count is
  below 1 or whose price is negative is rejected by the schema.
\<close>

theorem create_ride_postcondition:
  assumes "post_ride s user body i now = Inr (r, s')"
    and "js_lt (availableSeats_i bad) (num 1) \<or> js_lt (pricePerHead_i bad) (num 0)"
  shows "availableSeats r = totalSeats r \<and> totalSeats r = availableSeats_i body \<and>
         status_r r = OPEN \<and> creatorId r = user \<and> getRide s' i = Some r \<and>
         js_le (num 1) (totalSeats r) \<and> js_le (num 0) (pricePerHead r) \<and>
         post_ride s2 user2 bad i2 now2 = Inl ValidationFailed"
proof -
  have "post_ride s2 user2 bad i2 now2 = Inl ValidationFailed"
    using assms(2)
    by (auto simp: post_ride_def insertRideSchema_def z_number_min_def z_number_int_min_def Let_def)
  moreover from assms(1) have v: "isInteger (availableSeats_i body)"
    "\<not> js_lt (availableSeats_i body) (num 1)"
    "pricePerHead_i body \<noteq> NaN" "\<not> js_lt (pricePerHead_i body) (num 0)"
    by (auto simp: post_ride_def insertRideSchema_def z_number_min_def z_number_int_min_def Let_def
        split: if_splits)
  have one: "js_le (num 1) (availableSeats_i body)"
    using v(1,2) by (cases "availableSeats_i body") (auto simp: js_le_def num_def)
  have zero: "js_le (num 0) (pricePerHead_i body)"
    using v(3,4) by (cases "pricePerHead_i body") (auto simp: js_le_def num_def)
  from assms(1) have "availableSeats r = totalSeats r \<and> totalSeats r = availableSeats_i body \<and>
         status_r r = OPEN \<and> creatorId r = user \<and> getRide s' i = Some r \<and>
         pricePerHead r = pricePerHead_i body"
    by (auto simp: post_ride_def createRide_def getRide_def update_conv' Let_def split: if_splits)
  ultimately show ?thesis using one zero by simp
qed

theorem create_ride_postcondition_witness:
  "(\<exists>r s'. post_ride empty_storage ''u1'' (ride_input (num 3) (num 100)) ''r1'' ''t0'' = Inr (r, s') \<and>
      availableSeats r = num 3 \<and> totalSeats r = num 3 \<and> status_r r = OPEN) \<and>
   js_lt (availableSeats_i (ride_input (num 0) (num 100))) (num 1) \<and>
   post_ride empty_storage ''u1'' (ride_input (num 0) (num 100)) ''r2'' ''t1'' = Inl ValidationFailed"
proof -
  let ?r = "\<lparr> id_r = ''r1'', creatorId = ''u1'', from_r = ''VIT'', to_r = ''Bhopal'',
     date = ''2025-01-01'', time = ''10:00'', vehicleType = Car, availableSeats = num 3,
     totalSeats = num 3, pricePerHead = num 100, whatsappLink = ''https://wa.me/919999999999'',
     additionalMsg = Some [], status_r = OPEN, createdAt = ''t0'' \<rparr>"
  have p: "post_ride empty_storage ''u1'' (ride_input (num 3) (num 100)) ''r1'' ''t0'' =
             Inr (?r, exec empty_storage one_ride)"
    by code_simp
  have b: "js_lt (availableSeats_i (ride_input (num 0) (num 100))) (num 1) \<or>
           js_lt (pricePerHead_i (ride_input (num 0) (num 100))) (num 0)"
    by (simp add: ride_input_def)
  from create_ride_postcondition[OF p b, of empty_storage "''u1''" "''r2''" "''t1''"] p b
  show ?thesis by (simp add: ride_input_def)
qed

text \<open>
  C10. Cancelling a booking in the storage changes its status, which becomes CANCELLED,
  and its cancellation time, and nothing else: the other six fields of the booking keep
  their values, every booking under another identifier is as it was, the order of the
  bookings is kept, and no ride is touched.
\<close>

theorem cancelBooking_frame:
  assumes "getBooking s i = Some b"
  shows "\<exists>c s'. cancelBooking s i now = (Some c, s') \<and> getBooking s' i = Some c \<and>
           status_b c = BOOKING_CANCELLED \<and> cancelledAt c = Some now \<and>
           id_b c = id_b b \<and> rideId c = rideId b \<and> userId c = userId b \<and>
           seatsBooked c = seatsBooked b \<and> totalPrice c = totalPrice b \<and> bookedAt c = bookedAt b \<and>
           (\<forall>j. j \<noteq> i \<longrightarrow> getBooking s' j = getBooking s j) \<and>
           AList.delete i (bookings s') = AList.delete i (bookings s) \<and>
           map fst (bookings s') = map fst (bookings s) \<and>
           rides s' = rides s"
proof -
  define c where "c = b\<lparr>status_b := BOOKING_CANCELLED, cancelledAt := Some now\<rparr>"
  define s' where "s' = s\<lparr>bookings := AList.update i c (bookings s)\<rparr>"
  have m: "map_of (bookings s) i = Some b" using assms by (simp add: getBooking_def)
  then have r: "cancelBooking s i now = (Some c, s')"
    by (simp add: cancelBooking_def Let_def c_def s'_def)
  have k: "i \<in> set (map fst (bookings s))"
    using map_of_SomeD[OF m] by force
  have "getBooking s' i = Some c" "\<forall>j. j \<noteq> i \<longrightarrow> getBooking s' j = getBooking s j"
    "AList.delete i (bookings s') = AList.delete i (bookings s)"
    "map fst (bookings s') = map fst (bookings s)" "rides s' = rides s"
    using k by (simp_all add: getBooking_def s'_def update_conv' delete_update_same update_keys)
  moreover have "status_b c = BOOKING_CANCELLED" "cancelledAt c = Some now"
    "id_b c = id_b b" "rideId c = rideId b" "userId c = userId b"
    "seatsBooked c = seatsBooked b" "totalPrice c = totalPrice b" "bookedAt c = bookedAt b"
    by (simp_all add: c_def)
  ultimately show ?thesis using r by blast
qed

theorem cancelBooking_frame_witness:
  "getBooking (exec empty_storage two_bookings) ''b1'' =
     Some \<lparr> id_b = ''b1'', rideId = ''r1'', userId = ''u2'', seatsBooked = num 1, status_b = BOOKED,
            totalPrice = num 100, bookedAt = ''t1'', cancelledAt = None \<rparr> \<and>
   (\<exists>c s'. cancelBooking (exec empty_storage two_bookings) ''b1'' ''t3'' = (Some c, s') \<and>
           getBooking s' ''b1'' = Some c \<and>
           status_b c = BOOKING_CANCELLED \<and> cancelledAt c = Some ''t3'' \<and>
           id_b c = ''b1'' \<and> rideId c = ''r1'' \<and> userId c = ''u2'' \<and>
           seatsBooked c = num 1 \<and> totalPrice c = num 100 \<and> bookedAt c = ''t1'' \<and>
           getBooking s' ''b2'' = getBooking (exec empty_storage two_bookings) ''b2'')"
proof -
  have h: "getBooking (exec empty_storage two_bookings) ''b1'' =
     Some \<lparr> id_b = ''b1'', rideId = ''r1'', userId = ''u2'', seatsBooked = num 1, status_b = BOOKED,
            totalPrice = num 100, bookedAt = ''t1'', cancelledAt = None \<rparr>"
    by code_simp
  show ?thesis using h cancelBooking_frame[OF h, of "''t3''"] by fastforce
qed

end
